theory Spec2Isabelle
  imports Main "HOL-Library.Word"
begin

unbundle bit_operations_syntax

section \<open>Bytes and typed arrays\<close>

text \<open>
  A \<^verbatim>\<open>Uint8Array\<close> is a list of 8-bit words. JavaScript strings are modelled as
  \<^typ>\<open>string\<close>; only code units below 256 are represented, which covers every literal
  the code compares against.
\<close>

type_synonym byte = "8 word"
type_synonym bytes = "byte list"

section \<open>lib/html-sqlite-core.js: MemoryFile.isEncryptedData\<close>

text \<open>
  The function has four \<^verbatim>\<open>return\<close> statements. \<open>isEncryptedData_branch\<close> follows the
  source's tests in order and names the statement that is taken; the boolean the source
  returns is read off that statement. The argument is \<open>None\<close> for a falsy value
  (\<^verbatim>\<open>null\<close>, \<^verbatim>\<open>undefined\<close>), which \<^verbatim>\<open>!data\<close> catches.
\<close>

datatype enc_branch =
    ReturnShort         \<comment> \<open>\<^verbatim>\<open>if (!data || data.length < 29) return false\<close>\<close>
  | ReturnVersion       \<comment> \<open>\<^verbatim>\<open>if (data[0] !== 1) return false\<close>\<close>
  | ReturnSqlite        \<comment> \<open>the SQLite-signature test, \<^verbatim>\<open>return false\<close>\<close>
  | ReturnEncrypted     \<comment> \<open>the final \<^verbatim>\<open>return true\<close>\<close>

definition isEncryptedData_branch :: "bytes option \<Rightarrow> enc_branch" where
  "isEncryptedData_branch data =
     (case data of
        None \<Rightarrow> ReturnShort
      | Some d \<Rightarrow>
          if length d < 29 then ReturnShort
          else if d ! 0 \<noteq> 1 then ReturnVersion
          else if length d \<ge> 16 \<and> d ! 0 = 0x53 \<and> d ! 1 = 0x51 \<and> d ! 2 = 0x4C
               then ReturnSqlite
          else ReturnEncrypted)"

fun branch_value :: "enc_branch \<Rightarrow> bool" where
  "branch_value ReturnShort = False"
| "branch_value ReturnVersion = False"
| "branch_value ReturnSqlite = False"
| "branch_value ReturnEncrypted = True"

definition isEncryptedData :: "bytes option \<Rightarrow> bool" where
  "isEncryptedData data = branch_value (isEncryptedData_branch data)"

text \<open>The 16-byte header of a SQLite database file: \<^verbatim>\<open>"SQLite format 3\0"\<close>.\<close>

definition sqlite_signature :: bytes where
  "sqlite_signature =
     [0x53, 0x51, 0x4C, 0x69, 0x74, 0x65, 0x20, 0x66,
      0x6F, 0x72, 0x6D, 0x61, 0x74, 0x20, 0x33, 0x00]"

section \<open>Exceptions\<close>

text \<open>
  A thrown JavaScript exception is a value with the two fields the code reads:
  \<^verbatim>\<open>name\<close> and \<^verbatim>\<open>message\<close>. \<^verbatim>\<open>new Error(m)\<close> has the name \<^verbatim>\<open>Error\<close>. A function that
  may throw returns \<open>js_error + 'a\<close>, with \<open>Inl\<close> for the exception.
\<close>

datatype js_error = JsError (err_name: string) (err_message: string)

definition Error :: "string \<Rightarrow> js_error" where
  "Error m = JsError ''Error'' m"

text \<open>Template-literal rendering of a byte as a decimal number (0 to 255).\<close>

definition digit_char :: "nat \<Rightarrow> char" where
  "digit_char n = ''0123456789'' ! n"

definition show_byte :: "byte \<Rightarrow> string" where
  "show_byte b =
     (let n = unat b in
      if n < 10 then [digit_char n]
      else if n < 100 then [digit_char (n div 10), digit_char (n mod 10)]
      else [digit_char (n div 100), digit_char (n div 10 mod 10), digit_char (n mod 10)])"

section \<open>Typed-array operations\<close>

definition uint8array_new :: "nat \<Rightarrow> bytes" where
  "uint8array_new n = replicate n 0"

text \<open>\<^verbatim>\<open>target.set(source, offset)\<close> throws a RangeError when the source does not fit.\<close>

definition typed_set :: "bytes \<Rightarrow> bytes \<Rightarrow> nat \<Rightarrow> js_error + bytes" where
  "typed_set target source offset =
     (if offset + length source > length target
      then Inl (JsError ''RangeError'' ''offset is out of bounds'')
      else Inr (take offset target @ source @ drop (offset + length source) target))"

text \<open>\<^verbatim>\<open>a.slice(start, end)\<close> and \<^verbatim>\<open>a.slice(start)\<close> for non-negative indices.\<close>

definition slice :: "'a list \<Rightarrow> nat \<Rightarrow> nat \<Rightarrow> 'a list" where
  "slice xs start stop = drop start (take stop xs)"

definition slice_from :: "'a list \<Rightarrow> nat \<Rightarrow> 'a list" where
  "slice_from xs start = drop start xs"

section \<open>The host's cryptographic provider\<close>

text \<open>
  Web Crypto is not code of the repository; it is a parameter of the model. The key type
  \<open>'k\<close> stands for the opaque \<^verbatim>\<open>CryptoKey\<close>.
  \<^item> \<open>crypto_defined\<close>: \<^verbatim>\<open>typeof crypto !== 'undefined'\<close>;
  \<^item> \<open>subtle_defined\<close>: \<^verbatim>\<open>typeof crypto.subtle !== 'undefined'\<close>;
  \<^item> \<open>pbkdf2 password salt iterations\<close>: \<^verbatim>\<open>importKey\<close> of the encoded password followed by
    \<^verbatim>\<open>deriveKey\<close> with PBKDF2, SHA-256, to a 256-bit AES-GCM key;
  \<^item> \<open>aes_gcm_encrypt key iv data\<close>: \<^verbatim>\<open>crypto.subtle.encrypt\<close>, ciphertext followed by tag;
  \<^item> \<open>aes_gcm_decrypt key iv data\<close>: \<^verbatim>\<open>crypto.subtle.decrypt\<close>, \<open>None\<close> when it rejects.
\<close>

record 'k crypto_host =
  crypto_defined :: bool
  subtle_defined :: bool
  pbkdf2 :: "string \<Rightarrow> bytes \<Rightarrow> nat \<Rightarrow> 'k"
  aes_gcm_encrypt :: "'k \<Rightarrow> bytes \<Rightarrow> bytes \<Rightarrow> bytes"
  aes_gcm_decrypt :: "'k \<Rightarrow> bytes \<Rightarrow> bytes \<Rightarrow> bytes option"

text \<open>
  \<^verbatim>\<open>crypto.getRandomValues(new Uint8Array(n))\<close>: the generator is the stream \<open>rnd\<close> of
  the bytes it delivers during the call; \<open>pos\<close> is the number of bytes already drawn.
\<close>

definition getRandomValues :: "(nat \<Rightarrow> byte) \<Rightarrow> nat \<Rightarrow> nat \<Rightarrow> bytes" where
  "getRandomValues rnd pos n = map rnd [pos ..< pos + n]"

section \<open>lib/html-sqlite-core.js: deriveKey, encryptData, decryptData\<close>

record encryption_metadata =
  md_version :: byte
  md_algorithm :: string
  md_kdf :: string
  md_iterations :: nat
  md_timestamp :: "string option"

definition deriveKey :: "'k crypto_host \<Rightarrow> string \<Rightarrow> bytes \<Rightarrow> js_error + 'k" where
  "deriveKey h password salt =
     (if \<not> crypto_defined h \<or> \<not> subtle_defined h
      then Inl (Error ''Web Crypto API not available. Encryption requires HTTPS or a modern browser.'')
      else Inr (pbkdf2 h password salt 100000))"

definition password_error :: js_error where
  "password_error = Error ''Password must be a non-empty string''"

definition decryption_failed :: js_error where
  "decryption_failed = Error ''Decryption failed: incorrect password or corrupted data''"

definition insufficient_length :: js_error where
  "insufficient_length =
     Error ''Invalid encrypted data: insufficient length (minimum 29 bytes required)''"

definition unsupported_version :: "byte \<Rightarrow> js_error" where
  "unsupported_version v = Error (''Unsupported encryption version: '' @ show_byte v)"

text \<open>
  \<open>encryptData h rnd now data password\<close>. \<open>data\<close> is \<open>None\<close> for a value that is not a
  \<^verbatim>\<open>Uint8Array\<close>, \<open>password\<close> is \<open>None\<close> for a value that is not a string; \<open>now\<close> is
  \<^verbatim>\<open>new Date().toISOString()\<close>. The second component of the result is the value assigned
  to \<^verbatim>\<open>this.encryptionMetadata\<close>; when the function throws, nothing has been assigned.
\<close>

definition encryptData ::
  "'k crypto_host \<Rightarrow> (nat \<Rightarrow> byte) \<Rightarrow> string \<Rightarrow> bytes option \<Rightarrow> string option
     \<Rightarrow> js_error + (bytes \<times> encryption_metadata)" where
  "encryptData h rnd now data password =
     (case data of
        None \<Rightarrow> Inl (Error ''Data must be a Uint8Array'')
      | Some d \<Rightarrow>
     (case password of
        None \<Rightarrow> Inl password_error
      | Some w \<Rightarrow>
          if length w = 0 then Inl password_error
          else if \<not> crypto_defined h
            then Inl (JsError ''ReferenceError'' ''crypto is not defined'')
          else
            let salt = getRandomValues rnd 0 16;
                iv = getRandomValues rnd 16 12
            in (case deriveKey h w salt of
                  Inl e \<Rightarrow> Inl e
                | Inr key \<Rightarrow>
                    let encrypted = aes_gcm_encrypt h key iv d;
                        metadata = \<lparr> md_version = 1, md_algorithm = ''AES-GCM-256'',
                                     md_kdf = ''PBKDF2'', md_iterations = 100000,
                                     md_timestamp = Some now \<rparr>;
                        result0 = uint8array_new (1 + 16 + 12 + length encrypted);
                        result1 = result0[0 := md_version metadata]
                    in (case typed_set result1 salt 1 of
                          Inl e \<Rightarrow> Inl e
                        | Inr result2 \<Rightarrow>
                       (case typed_set result2 iv 17 of
                          Inl e \<Rightarrow> Inl e
                        | Inr result3 \<Rightarrow>
                       (case typed_set result3 encrypted 29 of
                          Inl e \<Rightarrow> Inl e
                        | Inr result \<Rightarrow> Inr (result, metadata)))))))"

text \<open>
  \<open>decryptData h encryptedData password\<close>. The key derivation is outside the source's
  \<^verbatim>\<open>try\<close> block, so its exception passes through unchanged; every rejection by
  \<^verbatim>\<open>crypto.subtle.decrypt\<close> is replaced by the one \<^verbatim>\<open>Decryption failed\<close> error.
\<close>

definition decryptData ::
  "'k crypto_host \<Rightarrow> bytes option \<Rightarrow> string option \<Rightarrow> js_error + (bytes \<times> encryption_metadata)" where
  "decryptData h encryptedData password =
     (case encryptedData of
        None \<Rightarrow> Inl (Error ''Encrypted data must be a Uint8Array'')
      | Some e \<Rightarrow>
          if length e < 29 then Inl insufficient_length
          else
     (case password of
        None \<Rightarrow> Inl password_error
      | Some w \<Rightarrow>
          if length w = 0 then Inl password_error
          else
            let version = e ! 0 in
            if version \<noteq> 1 then Inl (unsupported_version version)
            else
              let salt = slice e 1 17;
                  iv = slice e 17 29;
                  ciphertext = slice_from e 29
              in (case deriveKey h w salt of
                    Inl err \<Rightarrow> Inl err
                  | Inr key \<Rightarrow>
                     (case aes_gcm_decrypt h key iv ciphertext of
                        None \<Rightarrow> Inl decryption_failed
                      | Some decrypted \<Rightarrow>
                          Inr (decrypted,
                               \<lparr> md_version = version, md_algorithm = ''AES-GCM-256'',
                                 md_kdf = ''PBKDF2'', md_iterations = 100000,
                                 md_timestamp = None \<rparr>)))))"

text \<open>The byte array a call returns, without the metadata it stores.\<close>

definition returned :: "js_error + ('a \<times> encryption_metadata) \<Rightarrow> js_error + 'a" where
  "returned r = (case r of Inl e \<Rightarrow> Inl e | Inr (x, _) \<Rightarrow> Inr x)"

section \<open>Contracts of the cryptographic provider\<close>

text \<open>
  What the properties below assume of the provider, stated as predicates on the
  parameter. \<open>provider_correct\<close>: the provider is present and decryption inverts
  encryption under the same key and nonce.
\<close>

definition provider_correct :: "'k crypto_host \<Rightarrow> bool" where
  "provider_correct h \<longleftrightarrow>
     crypto_defined h \<and> subtle_defined h \<and>
     (\<forall>k iv d. aes_gcm_decrypt h k iv (aes_gcm_encrypt h k iv d) = Some d)"

text \<open>Flipping bit \<open>j\<close> of byte \<open>i\<close> of a byte array.\<close>

definition flip_bit_at :: "bytes \<Rightarrow> nat \<Rightarrow> nat \<Rightarrow> bytes" where
  "flip_bit_at xs i j = xs[i := xs ! i XOR push_bit j 1]"

text \<open>
  \<open>min_output h t\<close>: every output of encryption has at least \<open>t\<close> bytes (for AES-GCM, the
  length of the tag).
\<close>

definition min_output :: "'k crypto_host \<Rightarrow> nat \<Rightarrow> bool" where
  "min_output h t \<longleftrightarrow> (\<forall>k iv d. t \<le> length (aes_gcm_encrypt h k iv d))"

subsection \<open>A reference provider\<close>

text \<open>
  A small provider that meets the contracts above, used to instantiate the properties at
  concrete inputs. Its key is the pair (password, salt). A ciphertext is a header that
  spells out key and nonce in a prefix-free framing, followed by the plaintext written
  twice; opening checks the header and that the two copies agree, so this provider
  rejects a ciphertext under another key or nonce, or with one bit flipped.
\<close>

definition char_byte :: "char \<Rightarrow> byte" where
  "char_byte c = of_nat (of_char c)"

definition frame :: "bytes \<Rightarrow> bytes" where
  "frame xs = replicate (length xs) 1 @ [0] @ xs"

definition toy_header :: "string \<times> bytes \<Rightarrow> bytes \<Rightarrow> bytes" where
  "toy_header k iv = frame (map char_byte (fst k)) @ frame (snd k) @ frame iv"

definition toy_seal :: "string \<times> bytes \<Rightarrow> bytes \<Rightarrow> bytes \<Rightarrow> bytes" where
  "toy_seal k iv d = toy_header k iv @ d @ d"

definition toy_open :: "string \<times> bytes \<Rightarrow> bytes \<Rightarrow> bytes \<Rightarrow> bytes option" where
  "toy_open k iv c =
     (let hd = toy_header k iv;
          body = drop (length hd) c;
          m = length body div 2
      in if take (length hd) c = hd \<and> take m body = drop m body
         then Some (take m body) else None)"

definition toy_host :: "(string \<times> bytes) crypto_host" where
  "toy_host = \<lparr> crypto_defined = True, subtle_defined = True,
                pbkdf2 = (\<lambda>w s n. (w, s)),
                aes_gcm_encrypt = toy_seal,
                aes_gcm_decrypt = toy_open \<rparr>"

text \<open>A generator that delivers zero bytes, and the envelope it leads to.\<close>

definition zero_stream :: "nat \<Rightarrow> byte" where
  "zero_stream n = 0"

definition toy_envelope :: bytes where
  "toy_envelope = 1 # replicate 16 0 @ replicate 12 0
                    @ toy_seal (''correct'', replicate 16 0) (replicate 12 0) [1, 2, 3, 4, 5]"

text \<open>
  The reference provider with a key derivation that ignores zero characters at the end of
  the password, as HMAC does when it pads a short key with zero bytes to the block length.
\<close>

definition strip_nul :: "string \<Rightarrow> string" where
  "strip_nul w = rev (dropWhile (\<lambda>c. c = CHR 0x00) (rev w))"

definition padding_host :: "(string \<times> bytes) crypto_host" where
  "padding_host = toy_host \<lparr> pbkdf2 := (\<lambda>w s n. (strip_nul w, s)) \<rparr>"
section \<open>Commit-cycle simulator: the commit store\<close>

text \<open>
  \<^verbatim>\<open>MemoryFileSimulator\<close> keeps two SQL tables and the head metadata. A table is the list
  of its rows in insertion order. \<open>entries_seq\<close> is the \<^verbatim>\<open>AUTOINCREMENT\<close> counter of
  \<^verbatim>\<open>entries.id\<close>, which \<^verbatim>\<open>DELETE\<close> does not reset. \<^verbatim>\<open>this.db\<close> is \<open>None\<close> until \<^verbatim>\<open>init\<close> has
  run; a nullable column or field is an \<open>option\<close>.
\<close>

record commit_row =
  hash :: string
  parent_hash :: "string option"
  message :: string
  created_at :: string

record entry_row =
  entry_id :: nat
  entry_text :: string
  entry_created_at :: string

record database =
  entries :: "entry_row list"
  entries_seq :: nat
  commits :: "commit_row list"

record head_metadata =
  commitHash :: "string option"
  parentHash :: "string option"
  commitMessage :: "string option"
  commitDate :: "string option"

record simulator =
  db :: "database option"
  metadata :: head_metadata

text \<open>The constructor, and the database \<^verbatim>\<open>createSchema\<close> leaves on a new connection.\<close>

definition new_simulator :: simulator where
  "new_simulator =
     \<lparr> db = None,
       metadata = \<lparr> commitHash = None, parentHash = None,
                    commitMessage = None, commitDate = None \<rparr> \<rparr>"

definition empty_database :: database where
  "empty_database = \<lparr> entries = [], entries_seq = 0, commits = [] \<rparr>"

subsection \<open>The SQL statements\<close>

text \<open>\<^verbatim>\<open>INSERT INTO entries (text, created_at) VALUES (?, ?)\<close>\<close>

definition insert_entry :: "database \<Rightarrow> string \<Rightarrow> string \<Rightarrow> database" where
  "insert_entry d txt at =
     d \<lparr> entries := entries d @ [\<lparr> entry_id = entries_seq d + 1, entry_text = txt,
                                    entry_created_at = at \<rparr>],
         entries_seq := entries_seq d + 1 \<rparr>"

text \<open>
  \<^verbatim>\<open>INSERT INTO commits ...\<close>: \<^verbatim>\<open>hash\<close> is the primary key, so a row whose hash is already
  in the table makes the statement fail, and \<^verbatim>\<open>db.run\<close> throws.
\<close>

definition hash_exists :: "database \<Rightarrow> string \<Rightarrow> bool" where
  "hash_exists d h = (h \<in> set (map hash (commits d)))"

definition unique_constraint_failed :: js_error where
  "unique_constraint_failed = Error ''UNIQUE constraint failed: commits.hash''"

definition insert_commit :: "database \<Rightarrow> commit_row \<Rightarrow> js_error + database" where
  "insert_commit d row =
     (if hash_exists d (hash row) then Inl unique_constraint_failed
      else Inr (d \<lparr> commits := commits d @ [row] \<rparr>))"

text \<open>\<^verbatim>\<open>INSERT OR IGNORE INTO commits ...\<close>: the conflicting row is skipped, nothing is thrown.\<close>

definition insert_or_ignore_commit :: "database \<Rightarrow> commit_row \<Rightarrow> database" where
  "insert_or_ignore_commit d row =
     (if hash_exists d (hash row) then d else d \<lparr> commits := commits d @ [row] \<rparr>)"

text \<open>\<^verbatim>\<open>DELETE FROM entries\<close> and \<^verbatim>\<open>DELETE FROM commits WHERE parent_hash IS NOT NULL\<close>\<close>

definition delete_entries :: "database \<Rightarrow> database" where
  "delete_entries d = d \<lparr> entries := [] \<rparr>"

definition delete_child_commits :: "database \<Rightarrow> database" where
  "delete_child_commits d = d \<lparr> commits := filter (\<lambda>c. parent_hash c = None) (commits d) \<rparr>"

text \<open>
  Calling the method \<open>m\<close> of \<^verbatim>\<open>this.db\<close> while it is \<^verbatim>\<open>null\<close>: the \<^verbatim>\<open>TypeError\<close> of the property
  access, with the message Node gives it.
\<close>

definition null_db_error :: "string \<Rightarrow> js_error" where
  "null_db_error m =
     JsError ''TypeError''
       (''Cannot read properties of null (reading '' @ [CHR 0x27] @ m @ [CHR 0x27] @ '')'')"

subsection \<open>The operations\<close>

text \<open>
  An operation returns what the call returns or throws, and the simulator as the call
  leaves it. Values the host supplies are arguments: the hash \<^verbatim>\<open>generateHash\<close> returns
  (the first 8 hex digits of a SHA-256 over the JSON of the commit data, which includes
  \<^verbatim>\<open>Date.now()\<close>) and the timestamps \<^verbatim>\<open>new Date().toISOString()\<close>.
\<close>

definition ensureInitialCommit ::
  "simulator \<Rightarrow> string \<Rightarrow> string \<Rightarrow> (js_error + unit) \<times> simulator" where
  "ensureInitialCommit s commitHash' now =
     (if commitHash (metadata s) \<noteq> None then (Inr (), s)
      else
        let s1 = s \<lparr> metadata := \<lparr> commitHash = Some commitHash', parentHash = None,
                                     commitMessage = Some ''Initial commit'',
                                     commitDate = Some now \<rparr> \<rparr>
        in (case db s1 of
              None \<Rightarrow> (Inl (null_db_error ''run''), s1)
            | Some d \<Rightarrow>
                (Inr (),
                 s1 \<lparr> db := Some (insert_or_ignore_commit d
                          \<lparr> hash = commitHash', parent_hash = None,
                            message = ''Initial commit'', created_at = now \<rparr>) \<rparr>)))"

definition init :: "simulator \<Rightarrow> string \<Rightarrow> string \<Rightarrow> (js_error + unit) \<times> simulator" where
  "init s commitHash' now = ensureInitialCommit (s \<lparr> db := Some empty_database \<rparr>) commitHash' now"

definition addEntry ::
  "simulator \<Rightarrow> string \<Rightarrow> string \<Rightarrow> string \<Rightarrow> string \<Rightarrow> (js_error + string) \<times> simulator" where
  "addEntry s txt entry_at newHash now =
     (case db s of
        None \<Rightarrow> (Inl (null_db_error ''run''), s)
      | Some d \<Rightarrow>
          let d1 = insert_entry d txt entry_at in
          (case insert_commit d1
                  \<lparr> hash = newHash, parent_hash = commitHash (metadata s),
                    message = take 50 txt, created_at = now \<rparr> of
             Inl e \<Rightarrow> (Inl e, s \<lparr> db := Some d1 \<rparr>)
           | Inr d2 \<Rightarrow>
               (Inr newHash,
                s \<lparr> db := Some d2,
                    metadata := \<lparr> commitHash = Some newHash,
                                  parentHash = commitHash (metadata s),
                                  commitMessage = Some (take 50 txt),
                                  commitDate = Some now \<rparr> \<rparr>)))"

definition clearData :: "simulator \<Rightarrow> (js_error + unit) \<times> simulator" where
  "clearData s =
     (case db s of
        None \<Rightarrow> (Inl (null_db_error ''run''), s)
      | Some d \<Rightarrow> (Inr (), s \<lparr> db := Some (delete_child_commits (delete_entries d)) \<rparr>))"

text \<open>\<^verbatim>\<open>SELECT COUNT(*) FROM commits\<close> and the rows of the table.\<close>

definition commit_rows :: "simulator \<Rightarrow> commit_row list" where
  "commit_rows s = (case db s of None \<Rightarrow> [] | Some d \<Rightarrow> commits d)"

definition entry_rows :: "simulator \<Rightarrow> entry_row list" where
  "entry_rows s = (case db s of None \<Rightarrow> [] | Some d \<Rightarrow> entries d)"

definition getCommitCount :: "simulator \<Rightarrow> js_error + nat" where
  "getCommitCount s = (case db s of None \<Rightarrow> Inl (null_db_error ''exec'') | Some d \<Rightarrow> Inr (length (commits d)))"

subsection \<open>Sequences of operations\<close>

datatype store_op =
    Init string string
  | EnsureInitialCommit string string
  | AddEntry string string string string
  | ClearData

fun apply_store_op :: "simulator \<Rightarrow> store_op \<Rightarrow> simulator" where
  "apply_store_op s (Init h now) = snd (init s h now)"
| "apply_store_op s (EnsureInitialCommit h now) = snd (ensureInitialCommit s h now)"
| "apply_store_op s (AddEntry txt entry_at h now) = snd (addEntry s txt entry_at h now)"
| "apply_store_op s ClearData = snd (clearData s)"

text \<open>The simulator after a sequence of calls; a call that throws leaves its partial effect.\<close>

fun run_store_ops :: "simulator \<Rightarrow> store_op list \<Rightarrow> simulator" where
  "run_store_ops s [] = s"
| "run_store_ops s (x # xs) = run_store_ops (apply_store_op s x) xs"

text \<open>
  \<open>append_all s as\<close>: one \<^verbatim>\<open>await addEntry(...)\<close> after the other, each element of \<open>as\<close>
  being (text, entry timestamp, generated hash, commit timestamp); the first exception
  ends the sequence.
\<close>

fun append_all :: "simulator \<Rightarrow> (string \<times> string \<times> string \<times> string) list \<Rightarrow> js_error + simulator" where
  "append_all s [] = Inr s"
| "append_all s ((txt, entry_at, h, now) # as) =
     (case addEntry s txt entry_at h now of
        (Inl e, _) \<Rightarrow> Inl e
      | (Inr _, s') \<Rightarrow> append_all s' as)"

subsection \<open>The invariant of the data model\<close>

text \<open>
  The two parts of the chain invariant, as tests on the rows of the commits table: exactly
  one row has a null \<^verbatim>\<open>parent_hash\<close>; every non-null \<^verbatim>\<open>parent_hash\<close> is the hash of a row of
  the table.
\<close>

definition root_rows :: "commit_row list \<Rightarrow> commit_row list" where
  "root_rows rows = filter (\<lambda>c. parent_hash c = None) rows"

definition single_root :: "commit_row list \<Rightarrow> bool" where
  "single_root rows = (length (root_rows rows) = 1)"

definition parents_exist :: "commit_row list \<Rightarrow> bool" where
  "parents_exist rows =
     list_all (\<lambda>c. case parent_hash c of
                      None \<Rightarrow> True
                    | Some p \<Rightarrow> p \<in> set (map hash rows)) rows"

definition hashes_unique :: "commit_row list \<Rightarrow> bool" where
  "hashes_unique rows = distinct (map hash rows)"

subsection \<open>Auxiliary notions for the properties of the store\<close>

text \<open>The row \<^verbatim>\<open>ensureInitialCommit\<close> inserts.\<close>

definition root_commit :: "string \<Rightarrow> string \<Rightarrow> commit_row" where
  "root_commit h now = \<lparr> hash = h, parent_hash = None, message = ''Initial commit'', created_at = now \<rparr>"

text \<open>Which calls a sequence contains.\<close>

fun is_init :: "store_op \<Rightarrow> bool" where
  "is_init (Init _ _) = True"
| "is_init _ = False"

fun is_clear :: "store_op \<Rightarrow> bool" where
  "is_clear ClearData = True"
| "is_clear _ = False"

text \<open>
  \<open>head_set\<close>: the database is open and the head metadata names a commit.
  \<open>head_in_store\<close>: the commit the head metadata names is a row of the table.
\<close>

definition head_set :: "simulator \<Rightarrow> bool" where
  "head_set s \<longleftrightarrow> db s \<noteq> None \<and> commitHash (metadata s) \<noteq> None"

definition head_in_store :: "simulator \<Rightarrow> bool" where
  "head_in_store s \<longleftrightarrow>
     (case commitHash (metadata s) of None \<Rightarrow> False
      | Some h \<Rightarrow> h \<in> set (map hash (commit_rows s)))"

text \<open>
  The hash the host generated for an append, and the rows the chain invariant predicts
  for a sequence of appends on top of the commit \<open>head\<close>: each row's parent is the hash of
  the row before it.
\<close>

fun gen_hash :: "string \<times> string \<times> string \<times> string \<Rightarrow> string" where
  "gen_hash (txt, entry_at, h, now) = h"

fun expected_chain :: "string \<Rightarrow> (string \<times> string \<times> string \<times> string) list \<Rightarrow> commit_row list" where
  "expected_chain head [] = []"
| "expected_chain head ((txt, entry_at, h, now) # as) =
     \<lparr> hash = h, parent_hash = Some head, message = take 50 txt, created_at = now \<rparr>
       # expected_chain h as"

text \<open>Four appends with messages M1 to M4 on a new store, and the simulator they leave.\<close>

definition four_appends :: "(string \<times> string \<times> string \<times> string) list" where
  "four_appends =
     [(''M1'', ''t1'', ''11111111'', ''t1''), (''M2'', ''t2'', ''22222222'', ''t2''),
      (''M3'', ''t3'', ''33333333'', ''t3''), (''M4'', ''t4'', ''44444444'', ''t4'')]"

definition after_four_appends :: simulator where
  "after_four_appends =
     \<lparr> db = Some
         \<lparr> entries =
             [\<lparr> entry_id = 1, entry_text = ''M1'', entry_created_at = ''t1'' \<rparr>,
              \<lparr> entry_id = 2, entry_text = ''M2'', entry_created_at = ''t2'' \<rparr>,
              \<lparr> entry_id = 3, entry_text = ''M3'', entry_created_at = ''t3'' \<rparr>,
              \<lparr> entry_id = 4, entry_text = ''M4'', entry_created_at = ''t4'' \<rparr>],
           entries_seq = 4,
           commits =
             [\<lparr> hash = ''00000000'', parent_hash = None,
                message = ''Initial commit'', created_at = ''t0'' \<rparr>,
              \<lparr> hash = ''11111111'', parent_hash = Some ''00000000'',
                message = ''M1'', created_at = ''t1'' \<rparr>,
              \<lparr> hash = ''22222222'', parent_hash = Some ''11111111'',
                message = ''M2'', created_at = ''t2'' \<rparr>,
              \<lparr> hash = ''33333333'', parent_hash = Some ''22222222'',
                message = ''M3'', created_at = ''t3'' \<rparr>,
              \<lparr> hash = ''44444444'', parent_hash = Some ''33333333'',
                message = ''M4'', created_at = ''t4'' \<rparr>] \<rparr>,
       metadata = \<lparr> commitHash = Some ''44444444'', parentHash = Some ''33333333'',
                    commitMessage = Some ''M4'', commitDate = Some ''t4'' \<rparr> \<rparr>"

section \<open>MemoryFile.saveToFile\<close>

text \<open>
  The fields of a \<^verbatim>\<open>MemoryFile\<close> object that \<^verbatim>\<open>saveToFile\<close> reads or writes. The database
  is an opaque collaborator: \<open>mf_db\<close> is \<open>None\<close> while \<^verbatim>\<open>this.db\<close> is \<^verbatim>\<open>null\<close> and otherwise
  holds the bytes \<^verbatim>\<open>this.db.export()\<close> returns.
\<close>

record memory_file =
  mf_db :: "bytes option"
  opt_compression :: bool
  opt_encrypted :: bool
  opt_persistToStorage :: bool
  currentPassword :: "string option"
  encryptionMetadata :: "encryption_metadata option"

text \<open>
  What the browser does during one call.
  \<^item> \<open>env_pako\<close>: \<^verbatim>\<open>pako.gzip\<close>, \<open>None\<close> when the library is not loaded;
  \<^item> \<open>env_render\<close>: \<^verbatim>\<open>uint8ArrayToBase64\<close> followed by \<^verbatim>\<open>rebuildHTML\<close> on the current document;
  \<^item> \<open>env_picker\<close>: \<^verbatim>\<open>showSaveFilePicker\<close> and the write through the handle it returns;
  \<^item> \<open>env_idb\<close>: IndexedDB, for the variant that persists there first;
  \<^item> \<open>env_share\<close>: the Web Share path taken on iOS;
  \<^item> \<open>env_limitation\<close>: \<^verbatim>\<open>capabilities.messages.limitation\<close>;
  \<^item> \<open>env_now\<close>, \<open>env_rnd_file\<close>, \<open>env_rnd_storage\<close>: the clock and the random bytes delivered
    to the encryption of the file and of the stored copy.
\<close>

datatype picker =
    NoPicker               \<comment> \<open>\<^verbatim>\<open>'showSaveFilePicker' in window\<close> is false\<close>
  | PickerWrites           \<comment> \<open>the user picks a file and the write completes\<close>
  | PickerThrows js_error  \<comment> \<open>the picker or the write throws; cancelling throws an \<^verbatim>\<open>AbortError\<close>\<close>

datatype idb =
    IdbStores              \<comment> \<open>open, put and transaction complete\<close>
  | IdbOpenFails           \<comment> \<open>\<^verbatim>\<open>openIndexedDB\<close> rejects\<close>
  | IdbTransactionFails    \<comment> \<open>the transaction reports an error after the put\<close>

datatype share =
    NotOffered             \<comment> \<open>not iOS, or no Web Share API\<close>
  | CannotShare            \<comment> \<open>\<^verbatim>\<open>navigator.canShare\<close> is missing or returns false\<close>
  | Shares                 \<comment> \<open>\<^verbatim>\<open>navigator.share\<close> resolves\<close>
  | ShareThrows js_error   \<comment> \<open>constructing the file or sharing throws\<close>

record save_env =
  env_pako :: "(bytes \<Rightarrow> bytes) option"
  env_render :: "bytes \<Rightarrow> string"
  env_picker :: picker
  env_idb :: idb
  env_share :: share
  env_limitation :: "string option"
  env_now :: string
  env_rnd_file :: "nat \<Rightarrow> byte"
  env_rnd_storage :: "nat \<Rightarrow> byte"

text \<open>
  The object \<^verbatim>\<open>saveToFile\<close> returns. A property the source leaves out of an object
  literal is \<open>None\<close>.
\<close>

record save_result =
  success :: bool
  cancelled :: "bool option"
  save_method :: "string option"
  encrypted :: "bool option"
  passwordChanged :: "bool option"
  savedInPlace :: "bool option"
  persistedToStorage :: "bool option"
  result_message :: "string option"

text \<open>What a call did outside the object, in order.\<close>

datatype effect =
    StoredInIndexedDB bytes bool   \<comment> \<open>the record put: data and \<^verbatim>\<open>encrypted\<close> flag\<close>
  | WroteFile string               \<comment> \<open>content written through the picked handle\<close>
  | SharedFile string string       \<comment> \<open>content and file name\<close>
  | Downloaded string string       \<comment> \<open>content and file name\<close>

text \<open>
  Truthiness of a value that is \<^verbatim>\<open>null\<close> or a string, and \<^verbatim>\<open>a || b\<close> on such values.
\<close>

definition truthy :: "string option \<Rightarrow> bool" where
  "truthy v = (case v of None \<Rightarrow> False | Some s \<Rightarrow> s \<noteq> [])"

definition js_or :: "string option \<Rightarrow> string option \<Rightarrow> string option" where
  "js_or a b = (if truthy a then a else b)"

definition compress :: "save_env \<Rightarrow> bytes \<Rightarrow> bytes" where
  "compress env data = (case env_pako env of None \<Rightarrow> data | Some gzip \<Rightarrow> gzip data)"

definition save_failed :: "js_error \<Rightarrow> js_error" where
  "save_failed e = Error (''Save failed: '' @ err_message e)"

definition adopt_password :: "memory_file \<Rightarrow> string option \<Rightarrow> bool \<Rightarrow> memory_file" where
  "adopt_password mf password changePassword =
     (if changePassword \<and> truthy password then mf \<lparr> currentPassword := password \<rparr> else mf)"

text \<open>
  The part of the \<^verbatim>\<open>try\<close> block that both versions share: export, compress, encrypt,
  rebuild the document. It yields the document text and the object with the metadata
  \<^verbatim>\<open>encryptData\<close> stored, or the exception thrown inside.
\<close>

definition build_document ::
  "'k crypto_host \<Rightarrow> save_env \<Rightarrow> memory_file \<Rightarrow> bytes \<Rightarrow> string option
     \<Rightarrow> js_error + (string \<times> memory_file)" where
  "build_document h env mf exported password =
     (let exportedDb = (if opt_compression mf then compress env exported else exported);
          encryptPassword = js_or password (currentPassword mf)
      in if opt_encrypted mf then
           (if \<not> truthy encryptPassword
            then Inl (Error ''Password required: Encryption is enabled but no password provided'')
            else (case encryptData h (env_rnd_file env) (env_now env) (Some exportedDb)
                         encryptPassword of
                    Inl e \<Rightarrow> Inl e
                  | Inr (finalData, md) \<Rightarrow>
                      Inr (env_render env finalData, mf \<lparr> encryptionMetadata := Some md \<rparr>)))
         else Inr (env_render env exportedDb, mf))"

subsection \<open>lib/html-sqlite-core.js\<close>

text \<open>
  \<open>saveToFile h env mf filename password changePassword\<close> returns the outcome, the object
  as the call leaves it and the effects outside it. \<open>password\<close> is \<open>None\<close> for \<^verbatim>\<open>null\<close>.
\<close>

definition saveToFile ::
  "'k crypto_host \<Rightarrow> save_env \<Rightarrow> memory_file \<Rightarrow> string \<Rightarrow> string option \<Rightarrow> bool
     \<Rightarrow> (js_error + save_result) \<times> memory_file \<times> effect list" where
  "saveToFile h env mf filename password changePassword =
     (case mf_db mf of
        None \<Rightarrow> (Inl (Error ''Database not initialized''), mf, [])
      | Some exported \<Rightarrow>
         (case build_document h env mf exported password of
            Inl e \<Rightarrow> (Inl (save_failed e), mf, [])
          | Inr (htmlContent, mf1) \<Rightarrow>
             (case env_picker env of
                PickerWrites \<Rightarrow>
                  (Inr \<lparr> success = True, cancelled = None,
                         save_method = Some ''file-system-access'',
                         encrypted = Some (opt_encrypted mf),
                         passwordChanged = Some (changePassword \<and> truthy password),
                         savedInPlace = None, persistedToStorage = None,
                         result_message = None \<rparr>,
                   adopt_password mf1 password changePassword,
                   [WroteFile htmlContent])
              | PickerThrows err \<Rightarrow>
                  if err_name err = ''AbortError''
                  then (Inr \<lparr> success = False, cancelled = Some True, save_method = None,
                               encrypted = None, passwordChanged = None, savedInPlace = None,
                               persistedToStorage = None, result_message = None \<rparr>,
                        mf1, [])
                  else (Inl (save_failed err), mf1, [])
              | NoPicker \<Rightarrow>
                  (Inr \<lparr> success = True, cancelled = None, save_method = Some ''download'',
                         encrypted = Some (opt_encrypted mf),
                         passwordChanged = Some (changePassword \<and> truthy password),
                         savedInPlace = None, persistedToStorage = None,
                         result_message = None \<rparr>,
                   adopt_password mf1 password changePassword,
                   [Downloaded htmlContent filename]))))"

subsection \<open>The version that persists to IndexedDB first (src/unnamed/part_007)\<close>

text \<open>
  \<open>persistToStorage\<close> catches every exception and returns a boolean, or nothing when it
  has no work. It encrypts with the current password of the object.
\<close>

definition persistToStorage ::
  "'k crypto_host \<Rightarrow> save_env \<Rightarrow> memory_file \<Rightarrow> bool option \<times> memory_file \<times> effect list" where
  "persistToStorage h env mf =
     (case mf_db mf of
        None \<Rightarrow> (None, mf, [])
      | Some exported \<Rightarrow>
          if \<not> opt_persistToStorage mf then (None, mf, [])
          else if env_idb env = IdbOpenFails then (Some False, mf, [])
          else
            let exportedDb = (if opt_compression mf then compress env exported else exported)
            in if opt_encrypted mf \<and> truthy (currentPassword mf) then
                 (case encryptData h (env_rnd_storage env) (env_now env) (Some exportedDb)
                         (currentPassword mf) of
                    Inl e \<Rightarrow> (Some False, mf, [])
                  | Inr (data, md) \<Rightarrow>
                      (Some (env_idb env = IdbStores),
                       mf \<lparr> encryptionMetadata := Some md \<rparr>,
                       if env_idb env = IdbStores
                       then [StoredInIndexedDB data (opt_encrypted mf)] else []))
               else (Some (env_idb env = IdbStores), mf,
                     if env_idb env = IdbStores
                     then [StoredInIndexedDB exportedDb (opt_encrypted mf)] else []))"

definition cancelled_result :: "memory_file \<Rightarrow> string \<Rightarrow> save_result" where
  "cancelled_result mf text_if_stored =
     \<lparr> success = opt_persistToStorage mf, cancelled = Some True, save_method = None,
       encrypted = None, passwordChanged = None, savedInPlace = None,
       persistedToStorage = Some (opt_persistToStorage mf),
       result_message = (if opt_persistToStorage mf then Some text_if_stored else None) \<rparr>"

definition saveToFile_idb ::
  "'k crypto_host \<Rightarrow> save_env \<Rightarrow> memory_file \<Rightarrow> string \<Rightarrow> string option \<Rightarrow> bool
     \<Rightarrow> (js_error + save_result) \<times> memory_file \<times> effect list" where
  "saveToFile_idb h env mf filename password changePassword =
     (case mf_db mf of
        None \<Rightarrow> (Inl (Error ''Database not initialized''), mf, [])
      | Some exported \<Rightarrow>
          let (mf0, stored) =
                (if opt_persistToStorage mf
                 then (case persistToStorage h env (adopt_password mf password changePassword) of
                         (_, m, fx) \<Rightarrow> (m, fx))
                 else (mf, []))
          in
         (case build_document h env mf0 exported password of
            Inl e \<Rightarrow> (Inl (save_failed e), mf0, stored)
          | Inr (htmlContent, mf1) \<Rightarrow>
             (case env_picker env of
                PickerWrites \<Rightarrow>
                  (Inr \<lparr> success = True, cancelled = None,
                         save_method = Some ''file-system-access'',
                         encrypted = Some (opt_encrypted mf),
                         passwordChanged = Some (changePassword \<and> truthy password),
                         savedInPlace = Some True,
                         persistedToStorage = Some (opt_persistToStorage mf),
                         result_message = None \<rparr>,
                   adopt_password mf1 password changePassword,
                   stored @ [WroteFile htmlContent])
              | PickerThrows err \<Rightarrow>
                  if err_name err = ''AbortError''
                  then (Inr (cancelled_result mf
                               ''File save cancelled, but changes are saved locally.''),
                        mf1, stored)
                  else (Inl (save_failed err), mf1, stored)
              | NoPicker \<Rightarrow>
                  let download =
                        (Inr \<lparr> success = True, cancelled = None,
                               save_method = Some (if opt_persistToStorage mf
                                                   then ''storage'' else ''download''),
                               encrypted = Some (opt_encrypted mf),
                               passwordChanged = Some (changePassword \<and> truthy password),
                               savedInPlace = Some False,
                               persistedToStorage = Some (opt_persistToStorage mf),
                               result_message =
                                 (if opt_persistToStorage mf
                                  then Some ''Changes saved. Downloaded copy for backup/portability.''
                                  else env_limitation env) \<rparr>,
                         mf1, stored @ [Downloaded htmlContent filename])
                  in (case env_share env of
                        Shares \<Rightarrow>
                          (Inr \<lparr> success = True, cancelled = None, save_method = Some ''share'',
                                 encrypted = Some (opt_encrypted mf),
                                 passwordChanged = Some (changePassword \<and> truthy password),
                                 savedInPlace = Some False,
                                 persistedToStorage = Some (opt_persistToStorage mf),
                                 result_message =
                                   Some (if opt_persistToStorage mf
                                         then ''Changes saved. Use Share to export a portable copy.''
                                         else ''File shared. Save to Files app to keep your changes.'') \<rparr>,
                           mf1, stored @ [SharedFile htmlContent filename])
                      | ShareThrows err \<Rightarrow>
                          if err_name err = ''AbortError''
                          then (Inr (cancelled_result mf
                                       ''Export cancelled, but changes are saved locally.''),
                                mf1, stored)
                          else download
                      | CannotShare \<Rightarrow> download
                      | NotOffered \<Rightarrow> download))))"

text \<open>
  The object and the environment of a cancelled save with a password change: an open,
  encrypted database under the password \<^verbatim>\<open>old\<close>, default options of each version, and a
  picker the user dismisses.
\<close>

definition session_old :: "bool \<Rightarrow> memory_file" where
  "session_old persist =
     \<lparr> mf_db = Some [1, 2, 3], opt_compression = False, opt_encrypted = True,
       opt_persistToStorage = persist, currentPassword = Some ''old'',
       encryptionMetadata = None \<rparr>"

definition cancelling_env :: save_env where
  "cancelling_env =
     \<lparr> env_pako = None, env_render = (\<lambda>data. ''<!DOCTYPE html>''),
       env_picker = PickerThrows (JsError ''AbortError'' ''The user aborted a request.''),
       env_idb = IdbStores, env_share = NotOffered, env_limitation = None,
       env_now = ''2025-01-01T00:00:00.000Z'',
       env_rnd_file = zero_stream, env_rnd_storage = zero_stream \<rparr>"

section \<open>Regular expressions of the trust manager\<close>

text \<open>
  The patterns of \<^verbatim>\<open>lib/trust-manager.js\<close> are sequences of single-character items, each
  a literal, a character class with a quantifier, or the anchor \<^verbatim>\<open>$\<close>. A pattern is the
  list of its items; the flag \<^verbatim>\<open>i\<close> is part of the character tests. Matching follows the
  backtracking order of the RegExp engine: a greedy quantifier tries the longest
  repetition first, a lazy one the shortest, and the first alternative under which the
  rest of the pattern matches wins.
\<close>

datatype quantifier = Greedy | Lazy

datatype item =
    Lit "char \<Rightarrow> bool"                                   \<comment> \<open>one character\<close>
  | Rep "char \<Rightarrow> bool" nat "nat option" quantifier       \<comment> \<open>class, minimum, maximum (none for \<^verbatim>\<open>*\<close>, \<^verbatim>\<open>+\<close>)\<close>
  | AtEnd                                               \<comment> \<open>\<^verbatim>\<open>$\<close> without the flag \<^verbatim>\<open>m\<close>\<close>

fun first_some :: "'a option list \<Rightarrow> 'a option" where
  "first_some [] = None"
| "first_some (None # rs) = first_some rs"
| "first_some (Some r # rs) = Some r"

definition repetitions :: "(char \<Rightarrow> bool) \<Rightarrow> nat \<Rightarrow> nat option \<Rightarrow> quantifier \<Rightarrow> string \<Rightarrow> nat list" where
  "repetitions cls lo hi q s =
     (let run = length (takeWhile cls s);
          most = (case hi of None \<Rightarrow> run | Some h \<Rightarrow> min h run);
          counts = [lo ..< Suc most]
      in case q of Greedy \<Rightarrow> rev counts | Lazy \<Rightarrow> counts)"

text \<open>
  \<open>match_items p s\<close>: the match of pattern \<open>p\<close> that starts at the first character of \<open>s\<close>,
  as the number of characters each item consumed.
\<close>

fun match_items :: "item list \<Rightarrow> string \<Rightarrow> nat list option" where
  "match_items [] s = Some []"
| "match_items (Lit cls # p) s =
     (case s of
        [] \<Rightarrow> None
      | c # t \<Rightarrow> if cls c then map_option ((#) 1) (match_items p t) else None)"
| "match_items (Rep cls lo hi q # p) s =
     first_some (map (\<lambda>k. map_option ((#) k) (match_items p (drop k s)))
                     (repetitions cls lo hi q s))"
| "match_items (AtEnd # p) s =
     (if s = [] then map_option ((#) 0) (match_items p s) else None)"

text \<open>
  \<open>search p s\<close>: the leftmost match in \<open>s\<close>, as its start index and the lengths of its
  items; this is what \<^verbatim>\<open>RegExp.prototype.exec\<close> finds from index 0.
\<close>

fun search :: "item list \<Rightarrow> string \<Rightarrow> (nat \<times> nat list) option" where
  "search p [] = map_option (Pair 0) (match_items p [])"
| "search p (c # t) =
     (case match_items p (c # t) of
        Some ls \<Rightarrow> Some (0, ls)
      | None \<Rightarrow> map_option (\<lambda>(i, ls). (Suc i, ls)) (search p t))"

text \<open>
  \<^verbatim>\<open>s.replace(re, r)\<close> for a pattern with the flag \<^verbatim>\<open>g\<close> and a replacement without \<^verbatim>\<open>$\<close>:
  every match is replaced, the search resuming where the match ended, or one character
  further after an empty match. A non-empty match always leaves a shorter rest; the length
  test on the rest makes that visible to the termination argument.
\<close>

function replace_all :: "item list \<Rightarrow> string \<Rightarrow> string \<Rightarrow> string" where
  "replace_all p r s =
     (case search p s of
        None \<Rightarrow> s
      | Some (i, ls) \<Rightarrow>
          let n = sum_list ls; rest = drop (i + n) s
          in take i s @ r @
             (if n = 0
              then (case rest of [] \<Rightarrow> [] | c # t \<Rightarrow> c # replace_all p r t)
              else if length rest < length s then replace_all p r rest else rest))"
  by pat_completeness auto
termination
proof (relation "measure (\<lambda>(p, r, s). length s)")
  show "wf (measure (\<lambda>(p, r, s). length s))" by simp
next
  fix p r :: "item list" and s :: string and i ls n rest c t
  fix x :: "nat \<times> nat list" and q :: string
  assume "rest = drop (i + n) s" "n = 0" "rest = c # t"
  then have "length (c # t) = length s - i" by (metis add.right_neutral length_drop)
  then show "((p, q, t), (p, q, s)) \<in> measure (\<lambda>(p, r, s). length s)" by simp
next
  fix p :: "item list" and q s rest :: string
  assume "length rest < length s"
  then show "((p, q, rest), (p, q, s)) \<in> measure (\<lambda>(p, r, s). length s)" by simp
qed

subsection \<open>Character tests\<close>

text \<open>Code units are compared through their numbers; only those below 256 exist here.\<close>

definition code :: "char \<Rightarrow> nat" where
  "code c = of_char c"

definition is_digit :: "char \<Rightarrow> bool" where
  "is_digit c = (48 \<le> code c \<and> code c \<le> 57)"

text \<open>\<^verbatim>\<open>[a-f0-9]\<close> under the flag \<^verbatim>\<open>i\<close>, and without it.\<close>

definition is_hex_ci :: "char \<Rightarrow> bool" where
  "is_hex_ci c = (is_digit c \<or> (97 \<le> code c \<and> code c \<le> 102) \<or> (65 \<le> code c \<and> code c \<le> 70))"

definition is_lower_hex :: "char \<Rightarrow> bool" where
  "is_lower_hex c = (is_digit c \<or> (97 \<le> code c \<and> code c \<le> 102))"

text \<open>
  \<^verbatim>\<open>toUpperCase\<close> and \<^verbatim>\<open>toLowerCase\<close> on the letters A to Z; a literal ASCII character of a
  pattern with the flag \<^verbatim>\<open>i\<close> matches the characters with the same upper case.
\<close>

definition ascii_upper :: "char \<Rightarrow> char" where
  "ascii_upper c = (if 97 \<le> code c \<and> code c \<le> 122 then char_of (code c - 32) else c)"

definition ascii_lower :: "char \<Rightarrow> char" where
  "ascii_lower c = (if 65 \<le> code c \<and> code c \<le> 90 then char_of (code c + 32) else c)"

definition lit_ci :: "char \<Rightarrow> item" where
  "lit_ci c = Lit (\<lambda>x. ascii_upper x = ascii_upper c)"

definition lit :: "char \<Rightarrow> item" where
  "lit c = Lit (\<lambda>x. x = c)"

text \<open>\<^verbatim>\<open>\s\<close>: tab, line feed, vertical tab, form feed, carriage return, space, no-break space.\<close>

definition is_space :: "char \<Rightarrow> bool" where
  "is_space c = (code c \<in> {9, 10, 11, 12, 13, 32, 160})"

text \<open>\<^verbatim>\<open>.\<close>: any character but a line terminator. \<^verbatim>\<open>[^>]\<close>. \<^verbatim>\<open>[\s\S]\<close>.\<close>

definition is_dot :: "char \<Rightarrow> bool" where
  "is_dot c = (code c \<noteq> 10 \<and> code c \<noteq> 13)"

definition not_gt :: "char \<Rightarrow> bool" where
  "not_gt c = (c \<noteq> CHR ''>'')"

definition any_char :: "char \<Rightarrow> bool" where
  "any_char c = True"

section \<open>lib/trust-manager.js\<close>

subsection \<open>The host and the configuration\<close>

text \<open>
  The object stored in \<^verbatim>\<open>this.verificationResult\<close>: \<open>status\<close> and the optional properties
  the four object literals of \<^verbatim>\<open>verify\<close> set. The three functions after it are the
  literals: the two with status \<^verbatim>\<open>UNVERIFIED\<close> (one carries the file name, the one built in
  \<^verbatim>\<open>catch\<close> does not), the one with \<^verbatim>\<open>VERIFIED\<close> and the one with \<^verbatim>\<open>TAMPERED\<close>.
\<close>

record verification_result =
  status :: string
  v_reason :: "string option"
  v_hash :: "string option"
  v_fullHash :: "string option"
  v_expected :: "string option"
  v_actual :: "string option"
  v_fullExpected :: "string option"
  v_fullActual :: "string option"
  v_filename :: "string option"

definition Unverified :: "string \<Rightarrow> string option \<Rightarrow> verification_result" where
  "Unverified reason filename =
     \<lparr> status = ''UNVERIFIED'', v_reason = Some reason, v_hash = None, v_fullHash = None,
       v_expected = None, v_actual = None, v_fullExpected = None, v_fullActual = None,
       v_filename = filename \<rparr>"

definition Verified :: "string \<Rightarrow> string \<Rightarrow> string \<Rightarrow> verification_result" where
  "Verified expectedHash actualHash filename =
     \<lparr> status = ''VERIFIED'', v_reason = None, v_hash = Some expectedHash,
       v_fullHash = Some actualHash, v_expected = None, v_actual = None,
       v_fullExpected = None, v_fullActual = None, v_filename = Some filename \<rparr>"

definition Tampered :: "string \<Rightarrow> string \<Rightarrow> string \<Rightarrow> string \<Rightarrow> string \<Rightarrow> verification_result" where
  "Tampered expected actual fullExpected fullActual filename =
     \<lparr> status = ''TAMPERED'', v_reason = None, v_hash = None, v_fullHash = None,
       v_expected = Some expected, v_actual = Some actual,
       v_fullExpected = Some fullExpected, v_fullActual = Some fullActual,
       v_filename = Some filename \<rparr>"

text \<open>
  What the browser provides to the trust manager:
  \<^item> \<open>subtle_digest\<close>: \<^verbatim>\<open>crypto.subtle.digest("SHA-256", data)\<close>, or the exception it throws;
  \<^item> \<open>decodeURIComponent\<close>: the built-in, which throws on a malformed escape;
  \<^item> \<open>render_badge\<close>: \<^verbatim>\<open>renderBadge()\<close>, a sequence of DOM calls that reads the stored result,
    with the exception it throws if any;
  \<^item> \<open>regexp_replace source s\<close>: \<^verbatim>\<open>s.replace(new RegExp(source, "gi"), "")\<close>, that is the
    \<^verbatim>\<open>SyntaxError\<close> of the constructor or the string with the matches removed. It is
    consulted only for a pattern source outside the patterns modelled above.
  The configuration holds the fields the modelled functions read; \<open>hashLength\<close> is the
  value after the constructor's defaults and spread. \<open>onVerificationComplete\<close> is \<open>None\<close>
  for a falsy value. The callback is handed the stored object itself and may change it:
  it is given as the function from the object passed to the exception the call throws or
  to the object as the call leaves it.
\<close>

record trust_host =
  subtle_digest :: "bytes \<Rightarrow> js_error + bytes"
  decodeURIComponent :: "string \<Rightarrow> js_error + string"
  render_badge :: "verification_result \<Rightarrow> js_error option"
  regexp_replace :: "string \<Rightarrow> string \<Rightarrow> js_error + string"

record trust_config =
  hashLength :: int
  showBadge :: bool
  excludeSelectors :: "string list"
  onVerificationComplete :: "(verification_result \<Rightarrow> js_error + verification_result) option"

text \<open>The parts of the document and of \<^verbatim>\<open>window.location\<close> that \<^verbatim>\<open>getFilename\<close> reads.\<close>

record document =
  meta_filename :: "string option"   \<comment> \<open>\<^verbatim>\<open>content\<close> of \<^verbatim>\<open>meta[name="filename"]\<close>\<close>
  location_protocol :: string
  location_pathname :: string
  document_title :: string
  outerHTML :: string

subsection \<open>String helpers\<close>

text \<open>\<^verbatim>\<open>s.startsWith(p)\<close>; \<^verbatim>\<open>s.endsWith(p)\<close>; \<^verbatim>\<open>s.slice(0, n)\<close> for an integer \<open>n\<close>; \<^verbatim>\<open>s.trim()\<close>.\<close>

definition startsWith :: "string \<Rightarrow> string \<Rightarrow> bool" where
  "startsWith s p = (take (length p) s = p)"

definition endsWith :: "string \<Rightarrow> string \<Rightarrow> bool" where
  "endsWith s p = (length p \<le> length s \<and> drop (length s - length p) s = p)"

definition slice_to :: "string \<Rightarrow> int \<Rightarrow> string" where
  "slice_to s n = (if n < 0 then take (nat (int (length s) + n)) s else take (nat n) s)"

definition trim :: "string \<Rightarrow> string" where
  "trim s = rev (dropWhile is_space (rev (dropWhile is_space s)))"

text \<open>
  The part of a path after its last \<^verbatim>\<open>/\<close>:
  \<^verbatim>\<open>path.substring(path.lastIndexOf("/") + 1)\<close> and \<^verbatim>\<open>path.split("/").pop()\<close>.
\<close>

definition after_last_slash :: "string \<Rightarrow> string" where
  "after_last_slash path = rev (takeWhile (\<lambda>c. c \<noteq> CHR ''/'') (rev path))"

text \<open>\<^verbatim>\<open>new TextEncoder().encode(s)\<close>: UTF-8 of code units below 256.\<close>

definition utf8_char :: "char \<Rightarrow> bytes" where
  "utf8_char c =
     (if code c < 128 then [of_nat (code c)]
      else [of_nat (192 + code c div 64), of_nat (128 + code c mod 64)])"

definition utf8_encode :: "string \<Rightarrow> bytes" where
  "utf8_encode s = concat (map utf8_char s)"

text \<open>\<^verbatim>\<open>b.toString(16).padStart(2, "0")\<close> for a byte, and the join over the digest.\<close>

definition hex_digit :: "nat \<Rightarrow> char" where
  "hex_digit n = ''0123456789abcdef'' ! n"

definition toString16 :: "byte \<Rightarrow> string" where
  "toString16 b =
     (if unat b < 16 then [hex_digit (unat b)]
      else [hex_digit (unat b div 16), hex_digit (unat b mod 16)])"

definition padStart2 :: "string \<Rightarrow> string" where
  "padStart2 s = replicate (2 - length s) (CHR ''0'') @ s"

definition hex_string :: "bytes \<Rightarrow> string" where
  "hex_string bs = concat (map (\<lambda>b. padStart2 (toString16 b)) bs)"

subsection \<open>extractHashFromFilename\<close>

text \<open>\<^verbatim>\<open>/\.([a-f0-9]{6,64})\.html$/i\<close>; the group is the second item.\<close>

definition hash_pattern :: "item list" where
  "hash_pattern =
     [lit (CHR ''.''), Rep is_hex_ci 6 (Some 64) Greedy, lit (CHR ''.''),
      lit_ci (CHR ''h''), lit_ci (CHR ''t''), lit_ci (CHR ''m''), lit_ci (CHR ''l''), AtEnd]"

definition extractHashFromFilename :: "string \<Rightarrow> string option" where
  "extractHashFromFilename filename =
     (case search hash_pattern filename of
        None \<Rightarrow> None
      | Some (i, ls) \<Rightarrow>
          (case ls of
             dot # captured # _ \<Rightarrow>
               Some (map ascii_lower (take captured (drop (i + dot) filename)))
           | _ \<Rightarrow> None))"

subsection \<open>normalizeHTML and generateContentHash\<close>

text \<open>
  The pattern built for a selector:
  \<^verbatim>\<open><[^>]*id="SELECTOR"[^>]*>[\s\S]*?</[^>]+>\<close> with the flags \<^verbatim>\<open>gi\<close>, where \<^verbatim>\<open>SELECTOR\<close> is the
  selector without its first \<^verbatim>\<open>#\<close>. The selector is pasted into the source of the
  pattern, so its characters are read as pattern syntax: \<^verbatim>\<open>.\<close> is the wildcard. For a
  selector made of \<^verbatim>\<open>.\<close> and of ASCII characters without a meaning in a pattern, the
  pattern is the item list \<open>exclude_pattern\<close>. For any other selector \<open>selector_items\<close> is
  \<open>None\<close>, and the pattern source \<open>exclude_source\<close> goes to the RegExp of the host, which
  throws a \<^verbatim>\<open>SyntaxError\<close> or removes the matches.
\<close>

definition remove_first_hash :: "string \<Rightarrow> string" where
  "remove_first_hash s =
     takeWhile (\<lambda>c. c \<noteq> CHR ''#'') s @ drop 1 (dropWhile (\<lambda>c. c \<noteq> CHR ''#'') s)"

definition pattern_syntax :: "char \<Rightarrow> bool" where
  "pattern_syntax c = (c \<in> set (CHR 0x5C # ''^$*+?()[]{}|'') \<or> 128 \<le> code c)"

definition selector_items :: "string \<Rightarrow> item list option" where
  "selector_items sel =
     (if list_ex pattern_syntax sel then None
      else Some (map (\<lambda>c. if c = CHR ''.'' then Lit is_dot else lit_ci c) sel))"

definition exclude_pattern :: "item list \<Rightarrow> item list" where
  "exclude_pattern sel =
     [lit (CHR ''<''), Rep not_gt 0 None Greedy,
      lit_ci (CHR ''i''), lit_ci (CHR ''d''), lit (CHR ''=''), lit (CHR 0x22)]
     @ sel @
     [lit (CHR 0x22), Rep not_gt 0 None Greedy, lit (CHR ''>''),
      Rep any_char 0 None Lazy,
      lit (CHR ''<''), lit (CHR ''/''), Rep not_gt 1 None Greedy, lit (CHR ''>'')]"

definition exclude_source :: "string \<Rightarrow> string" where
  "exclude_source sel =
     ''<[^>]*id='' @ [CHR 0x22] @ sel @ [CHR 0x22]
       @ ''[^>]*>['' @ [CHR 0x5C] @ ''s'' @ [CHR 0x5C] @ ''S]*?</[^>]+>''"

fun remove_excluded :: "trust_host \<Rightarrow> string list \<Rightarrow> string \<Rightarrow> js_error + string" where
  "remove_excluded h [] html = Inr html"
| "remove_excluded h (selector # rest) html =
     (case selector_items (remove_first_hash selector) of
        Some sel \<Rightarrow> remove_excluded h rest (replace_all (exclude_pattern sel) [] html)
      | None \<Rightarrow>
          (case regexp_replace h (exclude_source (remove_first_hash selector)) html of
             Inl e \<Rightarrow> Inl e
           | Inr normalized \<Rightarrow> remove_excluded h rest normalized))"

definition normalizeHTML :: "trust_host \<Rightarrow> trust_config \<Rightarrow> string \<Rightarrow> js_error + string" where
  "normalizeHTML h cfg html =
     (case remove_excluded h (excludeSelectors cfg) html of
        Inl e \<Rightarrow> Inl e
      | Inr normalized \<Rightarrow>
          Inr (trim (replace_all [Rep is_space 1 None Greedy] '' '' normalized)))"

definition generateContentHash :: "trust_host \<Rightarrow> trust_config \<Rightarrow> string \<Rightarrow> js_error + string" where
  "generateContentHash h cfg htmlContent =
     (case normalizeHTML h cfg htmlContent of
        Inl e \<Rightarrow> Inl e
      | Inr normalized \<Rightarrow>
          (case subtle_digest h (utf8_encode normalized) of
             Inl e \<Rightarrow> Inl e
           | Inr hashBuffer \<Rightarrow> Inr (hex_string hashBuffer)))"

subsection \<open>generateCommitFilename\<close>

definition generateCommitFilename ::
  "trust_host \<Rightarrow> trust_config \<Rightarrow> string \<Rightarrow> string \<Rightarrow> js_error + string" where
  "generateCommitFilename h cfg basename htmlContent =
     (case generateContentHash h cfg htmlContent of
        Inl e \<Rightarrow> Inl e
      | Inr hash' \<Rightarrow>
          let shortHash = slice_to hash' (hashLength cfg)
          in Inr (basename @ ''.'' @ shortHash @ ''.html''))"

subsection \<open>getFilename and verify\<close>

definition getFilename :: "trust_host \<Rightarrow> document \<Rightarrow> js_error + string" where
  "getFilename h doc =
     (case meta_filename doc of
        Some content \<Rightarrow> Inr content
      | None \<Rightarrow>
          if location_protocol doc = ''file:''
          then decodeURIComponent h (after_last_slash (location_pathname doc))
          else if document_title doc \<noteq> [] \<and> endsWith (document_title doc) ''.html''
          then Inr (document_title doc)
          else if after_last_slash (location_pathname doc) \<noteq> []
          then Inr (after_last_slash (location_pathname doc))
          else Inr ''unknown.html'')"

text \<open>
  \<open>classify\<close> is the body of the \<^verbatim>\<open>try\<close> block up to the assignment of
  \<^verbatim>\<open>this.verificationResult\<close>. \<open>after_classification\<close> is the rest of the block: the badge is
  rendered, the callback is called with the stored object, and the stored object, as the
  callback has left it, is returned. \<open>after_calls\<close> adds the \<^verbatim>\<open>catch\<close> clause to that, and
  \<open>verify\<close> is the whole function.
\<close>

definition classify :: "trust_host \<Rightarrow> trust_config \<Rightarrow> document \<Rightarrow> js_error + verification_result" where
  "classify h cfg doc =
     (case getFilename h doc of
        Inl e \<Rightarrow> Inl e
      | Inr filename \<Rightarrow>
          (case extractHashFromFilename filename of
             None \<Rightarrow> Inr (Unverified ''No hash found in filename'' (Some filename))
           | Some expectedHash \<Rightarrow>
               (case generateContentHash h cfg (outerHTML doc) of
                  Inl e \<Rightarrow> Inl e
                | Inr actualHash \<Rightarrow>
                    if startsWith actualHash expectedHash
                    then Inr (Verified expectedHash actualHash filename)
                    else Inr (Tampered expectedHash
                                (slice_to actualHash (int (length expectedHash)))
                                expectedHash actualHash filename))))"

definition after_classification ::
  "trust_host \<Rightarrow> trust_config \<Rightarrow> verification_result \<Rightarrow> js_error + verification_result" where
  "after_classification h cfg r =
     (case (if showBadge cfg then render_badge h r else None) of
        Some e \<Rightarrow> Inl e
      | None \<Rightarrow>
          (case onVerificationComplete cfg of
             None \<Rightarrow> Inr r
           | Some callback \<Rightarrow> callback r))"

definition after_calls :: "trust_host \<Rightarrow> trust_config \<Rightarrow> verification_result \<Rightarrow> verification_result" where
  "after_calls h cfg r =
     (case after_classification h cfg r of
        Inr r' \<Rightarrow> r'
      | Inl error \<Rightarrow> Unverified (''Verification error: '' @ err_message error) None)"

definition verify :: "trust_host \<Rightarrow> trust_config \<Rightarrow> document \<Rightarrow> verification_result" where
  "verify h cfg doc =
     (case classify h cfg doc of
        Inr r \<Rightarrow> after_calls h cfg r
      | Inl error \<Rightarrow> Unverified (''Verification error: '' @ err_message error) None)"
subsection \<open>Auxiliary notions for the properties of the trust manager\<close>

text \<open>
  The extension \<^verbatim>\<open>.html\<close> in any letter case, and the part of the filename pattern that
  follows the group.
\<close>

definition html_ext :: "string \<Rightarrow> bool" where
  "html_ext s \<longleftrightarrow> length s = 5 \<and> take 1 s = ''.'' \<and> map ascii_upper (drop 1 s) = ''HTML''"

definition ext_pattern :: "item list" where
  "ext_pattern = [lit (CHR ''.''), lit_ci (CHR ''h''), lit_ci (CHR ''t''), lit_ci (CHR ''m''),
                  lit_ci (CHR ''l''), AtEnd]"

text \<open>
  What the properties assume of the host and the configuration.
  \<open>sha256_host\<close>: the digest never throws and has 32 bytes.
  \<open>selectors_modelled\<close>: every excluded selector is within the modelled pattern syntax.
  \<open>returns_unchanged h cfg r\<close>: with \<open>r\<close> stored, rendering the badge (if enabled) and the
  callback (if any) return without throwing, and the callback leaves \<open>r\<close> as it is.
  \<open>keeps_status\<close>: the callback, if any, never changes the status of the object it is
  handed.
\<close>

definition sha256_host :: "trust_host \<Rightarrow> bool" where
  "sha256_host h \<longleftrightarrow> (\<forall>x. \<exists>d. subtle_digest h x = Inr d \<and> length d = 32)"

definition selectors_modelled :: "trust_config \<Rightarrow> bool" where
  "selectors_modelled cfg \<longleftrightarrow>
     list_all (\<lambda>s. selector_items (remove_first_hash s) \<noteq> None) (excludeSelectors cfg)"

definition returns_unchanged :: "trust_host \<Rightarrow> trust_config \<Rightarrow> verification_result \<Rightarrow> bool" where
  "returns_unchanged h cfg r \<longleftrightarrow>
     (if showBadge cfg then render_badge h r = None else True) \<and>
     (case onVerificationComplete cfg of None \<Rightarrow> True | Some callback \<Rightarrow> callback r = Inr r)"

definition keeps_status :: "trust_config \<Rightarrow> bool" where
  "keeps_status cfg \<longleftrightarrow>
     (\<forall>callback r r'. onVerificationComplete cfg = Some callback \<and> callback r = Inr r'
        \<longrightarrow> status r' = status r)"

text \<open>
  A host for concrete instances, whose digest is 32 copies of the length of the data; a
  host whose digest throws and one whose badge rendering throws; the configuration the
  constructor builds from no options; that configuration with a callback that throws, and
  with a callback that overwrites the status; a page that names its file in a \<^verbatim>\<open>meta\<close>
  tag.
\<close>

definition toy_trust_host :: trust_host where
  "toy_trust_host =
     \<lparr> subtle_digest = (\<lambda>x. Inr (replicate 32 (of_nat (length x)))),
       decodeURIComponent = Inr,
       render_badge = (\<lambda>r. None),
       regexp_replace = (\<lambda>source s. Inl (JsError ''SyntaxError'' ''Invalid regular expression'')) \<rparr>"

definition failing_digest_host :: trust_host where
  "failing_digest_host =
     \<lparr> subtle_digest = (\<lambda>x. Inl (JsError ''TypeError'' ''crypto.subtle is undefined'')),
       decodeURIComponent = Inr,
       render_badge = (\<lambda>r. None),
       regexp_replace = (\<lambda>source s. Inl (JsError ''SyntaxError'' ''Invalid regular expression'')) \<rparr>"

definition failing_badge_host :: trust_host where
  "failing_badge_host =
     toy_trust_host \<lparr> render_badge := (\<lambda>r. Some (JsError ''TypeError'' ''document.body is null'')) \<rparr>"

definition default_config :: trust_config where
  "default_config =
     \<lparr> hashLength = 6, showBadge = True,
       excludeSelectors = [''#trust-badge'', ''.trust-modal''],
       onVerificationComplete = None \<rparr>"

definition throwing_config :: trust_config where
  "throwing_config =
     default_config \<lparr> onVerificationComplete := Some (\<lambda>r. Inl (Error ''boom'')) \<rparr>"

definition relabelling_config :: trust_config where
  "relabelling_config =
     default_config \<lparr> onVerificationComplete := Some (\<lambda>r. Inr (r \<lparr> status := ''VERIFIED'' \<rparr>)) \<rparr>"

definition page :: "string \<Rightarrow> string \<Rightarrow> document" where
  "page name html =
     \<lparr> meta_filename = Some name, location_protocol = ''https:'', location_pathname = ''/'',
       document_title = '''', outerHTML = html \<rparr>"
section \<open>Properties of isEncryptedData\<close>

text \<open>
  C10. For every byte array \<open>d\<close>, \<open>isEncryptedData d\<close> is true exactly when \<open>d\<close> has at
  least 29 bytes and its first byte is 1. The return statement of the SQLite-signature
  test is never the one taken, and data that starts with the SQLite file signature is
  turned away by the length test or by the version test (its first byte is 0x53, not 1),
  never by the signature test.
\<close>

theorem isEncryptedData_characterisation:
  "isEncryptedData (Some d) = (29 \<le> length d \<and> d ! 0 = 1)
   \<and> isEncryptedData_branch (Some d) \<noteq> ReturnSqlite
   \<and> isEncryptedData_branch None \<noteq> ReturnSqlite
   \<and> isEncryptedData_branch (Some (sqlite_signature @ rest))
       = (if length rest < 13 then ReturnShort else ReturnVersion)
   \<and> \<not> isEncryptedData (Some (sqlite_signature @ rest))"
  by (simp add: isEncryptedData_def isEncryptedData_branch_def sqlite_signature_def)

section \<open>Properties of the encryption envelope\<close>

subsection \<open>The reference provider meets the contracts\<close>

lemma flipped_byte_differs: "j < 8 \<Longrightarrow> (b::byte) XOR push_bit j 1 \<noteq> b"
proof
  assume j: "j < 8" and eq: "b XOR push_bit j 1 = b"
  have "bit (b XOR push_bit j 1) j = (\<not> bit b j)"
    using j by (simp add: bit_xor_iff bit_exp_iff)
  with eq show False by simp
qed

lemma char_byte_inj: "char_byte c = char_byte c' \<Longrightarrow> c = c'"
proof -
  assume "char_byte c = char_byte c'"
  then have "unat (of_nat (of_char c) :: byte) = unat (of_nat (of_char c') :: byte)"
    by (simp add: char_byte_def)
  then have "(of_char c :: nat) mod 256 = of_char c' mod 256"
    by (simp add: unat_of_nat)
  then show ?thesis
    by simp
qed

lemma map_char_byte_inj: "map char_byte w = map char_byte w' \<Longrightarrow> w = w'"
  by (metis char_byte_inj inj_onI inj_map_eq_map)

lemma unary_prefix:
  "replicate n (1::byte) @ 0 # r = replicate m 1 @ 0 # r' \<Longrightarrow> n = m \<and> r = r'"
proof (induction n arbitrary: m)
  case 0
  then show ?case by (cases m) auto
next
  case (Suc n)
  then show ?case by (cases m) auto
qed

lemma frame_prefix_free:
  assumes "frame a @ r = frame b @ r'"
  shows "a = b \<and> r = r'"
proof -
  from assms have "replicate (length a) (1::byte) @ 0 # (a @ r)
                 = replicate (length b) 1 @ 0 # (b @ r')"
    by (simp add: frame_def)
  then have "length a = length b" and "a @ r = b @ r'"
    using unary_prefix by blast+
  then show ?thesis by simp
qed

lemma toy_header_prefix_free:
  assumes "toy_header k iv @ r = toy_header k' iv' @ r'"
  shows "k = k' \<and> iv = iv' \<and> r = r'"
proof -
  from assms have
    "frame (map char_byte (fst k)) @ (frame (snd k) @ frame iv @ r)
     = frame (map char_byte (fst k')) @ (frame (snd k') @ frame iv' @ r')"
    by (simp add: toy_header_def)
  then have a: "map char_byte (fst k) = map char_byte (fst k')"
    and r1: "frame (snd k) @ (frame iv @ r) = frame (snd k') @ (frame iv' @ r')"
    using frame_prefix_free by blast+
  from r1 have b: "snd k = snd k'" and r2: "frame iv @ r = frame iv' @ r'"
    using frame_prefix_free by blast+
  from r2 have c: "iv = iv'" "r = r'"
    using frame_prefix_free by blast+
  from a have "fst k = fst k'" by (rule map_char_byte_inj)
  with b c show ?thesis by (simp add: prod_eq_iff)
qed

lemma toy_open_Some:
  "toy_open k iv c = Some d \<longleftrightarrow> c = toy_seal k iv d"
proof
  assume "toy_open k iv c = Some d"
  then have h: "take (length (toy_header k iv)) c = toy_header k iv"
    and b: "take (length (drop (length (toy_header k iv)) c) div 2) (drop (length (toy_header k iv)) c)
          = drop (length (drop (length (toy_header k iv)) c) div 2) (drop (length (toy_header k iv)) c)"
    and d: "d = take (length (drop (length (toy_header k iv)) c) div 2) (drop (length (toy_header k iv)) c)"
    by (auto simp: toy_open_def Let_def split: if_splits)
  define body where "body = drop (length (toy_header k iv)) c"
  have "c = toy_header k iv @ body"
    using h by (metis append_take_drop_id body_def)
  moreover have "body = d @ d"
    using b d unfolding body_def[symmetric]
    by (metis append_take_drop_id)
  ultimately show "c = toy_seal k iv d"
    by (simp add: toy_seal_def)
next
  assume "c = toy_seal k iv d"
  then show "toy_open k iv c = Some d"
    by (simp add: toy_open_def toy_seal_def Let_def)
qed

lemma toy_correct: "provider_correct toy_host"
  by (simp add: provider_correct_def toy_host_def toy_open_Some)

lemma toy_wrong_key:
  assumes "(k', iv') \<noteq> (k, iv)"
  shows "toy_open k' iv' (toy_seal k iv d) = None"
proof (rule ccontr)
  assume "toy_open k' iv' (toy_seal k iv d) \<noteq> None"
  then obtain e where "toy_open k' iv' (toy_seal k iv d) = Some e" by auto
  then have "toy_seal k iv d = toy_seal k' iv' e" by (simp add: toy_open_Some)
  then have "toy_header k iv @ (d @ d) = toy_header k' iv' @ (e @ e)"
    by (simp add: toy_seal_def)
  then have "k = k' \<and> iv = iv'" using toy_header_prefix_free by blast
  with assms show False by simp
qed

lemma toy_flip:
  assumes "i < length (toy_seal k iv d)" "j < 8"
  shows "toy_open k iv (flip_bit_at (toy_seal k iv d) i j) = None"
proof (rule ccontr)
  let ?c = "toy_seal k iv d"
  assume "toy_open k iv (flip_bit_at ?c i j) \<noteq> None"
  then obtain e where "toy_open k iv (flip_bit_at ?c i j) = Some e" by auto
  then have eq: "flip_bit_at ?c i j = toy_seal k iv e" by (simp add: toy_open_Some)
  then have "length (toy_seal k iv e) = length ?c" by (metis flip_bit_at_def length_list_update)
  then have len: "length e = length d" by (simp add: toy_seal_def)
  have ne: "flip_bit_at ?c i j ! i \<noteq> ?c ! i"
    using assms flipped_byte_differs [of j "?c ! i"] by (simp add: flip_bit_at_def)
  have same: "\<And>n. n \<noteq> i \<Longrightarrow> flip_bit_at ?c i j ! n = ?c ! n"
    by (simp add: flip_bit_at_def)
  let ?n = "length (toy_header k iv)"
  have L: "length ?c = ?n + length d + length d" by (simp add: toy_seal_def)
  consider (hd) "i < ?n" | (first) "?n \<le> i" "i < ?n + length d" | (second) "?n + length d \<le> i"
    by linarith
  then show False
  proof cases
    case hd
    then have "toy_seal k iv e ! i = ?c ! i"
      by (simp add: toy_seal_def nth_append)
    with ne eq show False by simp
  next
    case first
    define p where "p = i - ?n"
    have p: "p < length d" "i = ?n + p" using first by (simp_all add: p_def)
    have "toy_seal k iv e ! i = e ! p" using p len by (simp add: toy_seal_def nth_append)
    moreover have "toy_seal k iv e ! (?n + length d + p) = e ! p"
      using p len by (simp add: toy_seal_def nth_append)
    moreover have "?c ! (?n + length d + p) = d ! p" using p by (simp add: toy_seal_def nth_append)
    moreover have "?c ! i = d ! p" using p by (simp add: toy_seal_def nth_append)
    moreover have "flip_bit_at ?c i j ! (?n + length d + p) = ?c ! (?n + length d + p)"
      using p by (intro same) auto
    ultimately show False using ne eq by simp
  next
    case second
    define p where "p = i - ?n - length d"
    have p: "p < length d" "i = ?n + length d + p" using second assms(1) L by (simp_all add: p_def)
    have "toy_seal k iv e ! i = e ! p" using p len by (simp add: toy_seal_def nth_append)
    moreover have "toy_seal k iv e ! (?n + p) = e ! p"
      using p len by (simp add: toy_seal_def nth_append)
    moreover have "?c ! (?n + p) = d ! p" using p by (simp add: toy_seal_def nth_append)
    moreover have "?c ! i = d ! p" using p by (simp add: toy_seal_def nth_append)
    moreover have "flip_bit_at ?c i j ! (?n + p) = ?c ! (?n + p)"
      using p by (intro same) auto
    ultimately show False using ne eq by simp
  qed
qed

subsection \<open>The layout that encryptData builds and decryptData reads\<close>

lemma length_getRandomValues: "length (getRandomValues rnd pos n) = n"
  by (simp add: getRandomValues_def)

lemma fresh_array_version: "take (Suc 0) ((replicate (29 + n) (0::byte))[0 := v]) = [v]"
proof -
  have "29 + n = Suc (28 + n)" by simp
  then have "replicate (29 + n) (0::byte) = 0 # replicate (28 + n) 0"
    by (simp only: replicate_Suc)
  then show ?thesis by simp
qed

lemma encryptData_Inr:
  assumes "encryptData h rnd now data password = Inr (E, md)"
  shows "\<exists>d w. data = Some d \<and> password = Some w \<and> w \<noteq> [] \<and> crypto_defined h \<and> subtle_defined h \<and>
           E = 1 # getRandomValues rnd 0 16 @ getRandomValues rnd 16 12
                 @ aes_gcm_encrypt h (pbkdf2 h w (getRandomValues rnd 0 16) 100000)
                     (getRandomValues rnd 16 12) d"
  using assms
  by (auto simp: encryptData_def deriveKey_def Let_def typed_set_def uint8array_new_def
      fresh_array_version length_getRandomValues
      split: option.splits if_splits sum.splits)

lemma encryptData_envelope:
  assumes "crypto_defined h" "subtle_defined h" "w \<noteq> []"
  shows "returned (encryptData h rnd now (Some d) (Some w))
       = Inr (1 # getRandomValues rnd 0 16 @ getRandomValues rnd 16 12
                 @ aes_gcm_encrypt h (pbkdf2 h w (getRandomValues rnd 0 16) 100000)
                     (getRandomValues rnd 16 12) d)"
  using assms
  by (simp add: encryptData_def returned_def deriveKey_def Let_def typed_set_def
      uint8array_new_def fresh_array_version length_getRandomValues)

lemma decryptData_envelope:
  assumes "crypto_defined h" "subtle_defined h" "w \<noteq> []" "length salt = 16" "length iv = 12"
  shows "returned (decryptData h (Some (1 # salt @ iv @ ct)) (Some w))
       = (case aes_gcm_decrypt h (pbkdf2 h w salt 100000) iv ct of
            None \<Rightarrow> Inl decryption_failed | Some p \<Rightarrow> Inr p)"
  using assms
  by (simp add: decryptData_def returned_def deriveKey_def Let_def slice_def slice_from_def
      split: option.splits)

lemma decryptData_rejected:
  assumes "crypto_defined h" "subtle_defined h" "w \<noteq> []" "length salt = 16" "length iv = 12"
    and "aes_gcm_decrypt h (pbkdf2 h w salt 100000) iv ct = None"
  shows "decryptData h (Some (1 # salt @ iv @ ct)) (Some w) = Inl decryption_failed"
  using assms
  by (simp add: decryptData_def deriveKey_def Let_def slice_def slice_from_def)

lemma length_flip_bit_at: "length (flip_bit_at xs i j) = length xs"
  by (simp add: flip_bit_at_def)

lemma flip_bit_at_differs: "i < length xs \<Longrightarrow> j < 8 \<Longrightarrow> flip_bit_at xs i j \<noteq> xs"
proof
  assume a: "i < length xs" "j < 8" and eq: "flip_bit_at xs i j = xs"
  have "flip_bit_at xs i j ! i = xs ! i XOR push_bit j 1"
    using a by (simp add: flip_bit_at_def)
  with eq have "xs ! i XOR push_bit j 1 = xs ! i" by simp
  with flipped_byte_differs [OF a(2)] show False by blast
qed

lemma flip_bit_at_Cons: "flip_bit_at (x # xs) (Suc n) j = x # flip_bit_at xs n j"
  by (simp add: flip_bit_at_def)

lemma flip_bit_at_append:
  "flip_bit_at (xs @ ys) n j =
     (if n < length xs then flip_bit_at xs n j @ ys else xs @ flip_bit_at ys (n - length xs) j)"
  by (simp add: flip_bit_at_def list_update_append nth_append)

lemma zero_stream_values: "getRandomValues zero_stream pos n = replicate n 0"
  unfolding getRandomValues_def
  by (induction n) (simp_all add: zero_stream_def replicate_append_same)

lemma toy_encrypts:
  "returned (encryptData toy_host zero_stream now (Some [1, 2, 3, 4, 5]) (Some ''correct''))
     = Inr toy_envelope"
proof -
  have "returned (encryptData toy_host zero_stream now (Some [1, 2, 3, 4, 5]) (Some ''correct''))
      = Inr (1 # getRandomValues zero_stream 0 16 @ getRandomValues zero_stream 16 12
                 @ aes_gcm_encrypt toy_host
                     (pbkdf2 toy_host ''correct'' (getRandomValues zero_stream 0 16) 100000)
                     (getRandomValues zero_stream 16 12) [1, 2, 3, 4, 5])"
    by (rule encryptData_envelope) (simp_all add: toy_host_def)
  then show ?thesis
    by (simp only: zero_stream_values toy_envelope_def) (simp add: toy_host_def)
qed

lemma toy_min_output: "min_output toy_host 3"
  by (simp add: min_output_def toy_host_def toy_seal_def toy_header_def frame_def)

lemma length_toy_envelope: "length toy_envelope = 112"
  by (simp add: toy_envelope_def toy_seal_def toy_header_def frame_def)

lemma encryptData_returned:
  assumes "returned (encryptData h rnd now (Some P) (Some W1)) = Inr E"
  shows "crypto_defined h \<and> subtle_defined h \<and> W1 \<noteq> [] \<and>
         E = 1 # getRandomValues rnd 0 16 @ getRandomValues rnd 16 12
               @ aes_gcm_encrypt h (pbkdf2 h W1 (getRandomValues rnd 0 16) 100000)
                   (getRandomValues rnd 16 12) P"
proof -
  from assms obtain md where "encryptData h rnd now (Some P) (Some W1) = Inr (E, md)"
    by (auto simp: returned_def split: sum.splits)
  from encryptData_Inr [OF this] show ?thesis by auto
qed

lemma flip_bit_at_Cons_pos: "0 < i \<Longrightarrow> flip_bit_at (x # xs) i j = x # flip_bit_at xs (i - 1) j"
  by (cases i) (simp_all add: flip_bit_at_Cons)

subsection \<open>Round trip\<close>

text \<open>
  C1. For every plaintext \<open>P\<close> and every non-empty password \<open>W\<close>, with a provider that is
  present and whose decryption inverts its encryption, \<open>encryptData\<close> returns an envelope
  and \<open>decryptData\<close> of that envelope with \<open>W\<close> returns \<open>P\<close>, whatever salt and nonce the
  generator delivered.
\<close>

theorem decrypt_encrypt_roundtrip:
  assumes "provider_correct h" and "W \<noteq> []"
  shows "\<exists>E. returned (encryptData h rnd now (Some P) (Some W)) = Inr E
           \<and> returned (decryptData h (Some E) (Some W)) = Inr P"
proof -
  from assms(1) have av: "crypto_defined h" "subtle_defined h"
    and rt: "\<And>k iv d. aes_gcm_decrypt h k iv (aes_gcm_encrypt h k iv d) = Some d"
    by (simp_all add: provider_correct_def)
  let ?salt = "getRandomValues rnd 0 16" and ?iv = "getRandomValues rnd 16 12"
  let ?ct = "aes_gcm_encrypt h (pbkdf2 h W ?salt 100000) ?iv P"
  have "returned (encryptData h rnd now (Some P) (Some W)) = Inr (1 # ?salt @ ?iv @ ?ct)"
    using av assms(2) by (rule encryptData_envelope)
  moreover have "returned (decryptData h (Some (1 # ?salt @ ?iv @ ?ct)) (Some W)) = Inr P"
    using av assms(2) by (simp add: decryptData_envelope length_getRandomValues rt)
  ultimately show ?thesis by blast
qed

theorem decrypt_encrypt_roundtrip_witness:
  "provider_correct toy_host \<and> ''correct'' \<noteq> []
   \<and> returned (encryptData toy_host zero_stream ''2025-01-01T00:00:00.000Z''
                  (Some [1, 2, 3, 4, 5]) (Some ''correct'')) = Inr toy_envelope
   \<and> returned (decryptData toy_host (Some toy_envelope) (Some ''correct'')) = Inr [1, 2, 3, 4, 5]"
proof -
  have ne: "''correct'' \<noteq> []" by simp
  from decrypt_encrypt_roundtrip [OF toy_correct ne,
      of zero_stream "''2025-01-01T00:00:00.000Z''" "[1, 2, 3, 4, 5]"]
  obtain E where "returned (encryptData toy_host zero_stream ''2025-01-01T00:00:00.000Z''
                  (Some [1, 2, 3, 4, 5]) (Some ''correct'')) = Inr E"
    and "returned (decryptData toy_host (Some E) (Some ''correct'')) = Inr [1, 2, 3, 4, 5]"
    by blast
  then show ?thesis using toy_correct toy_encrypts by simp
qed

subsection \<open>Wire format\<close>

text \<open>
  C4. Every envelope \<open>E\<close> that \<open>encryptData\<close> returns has byte 0 equal to 1, bytes 1 to 16
  the 16-byte salt, bytes 17 to 28 the 12-byte nonce and bytes 29 onward the output of the
  AEAD, so its length is 29 plus the length of that output, hence at least 29 plus any
  lower bound \<open>t\<close> on the provider's output (the tag length). \<open>decryptData\<close> rejects an input
  shorter than 29 bytes, and an input of at least 29 bytes whose byte 0 is not 1, with an
  error that does not depend on the provider: no decryption has been attempted.
\<close>

theorem envelope_wire_format:
  "(returned (encryptData h rnd now data password) = Inr E \<longrightarrow>
      (\<exists>d w. data = Some d \<and> password = Some w \<and>
         (let salt = getRandomValues rnd 0 16;
              iv = getRandomValues rnd 16 12;
              ct = aes_gcm_encrypt h (pbkdf2 h w salt 100000) iv d
          in E ! 0 = 1
             \<and> slice E 1 17 = salt \<and> length salt = 16
             \<and> slice E 17 29 = iv \<and> length iv = 12
             \<and> slice_from E 29 = ct
             \<and> length E = 29 + length ct
             \<and> (min_output h t \<longrightarrow> 29 + t \<le> length E))))
   \<and> (length e < 29 \<longrightarrow> decryptData h' (Some e) pw = Inl insufficient_length)
   \<and> (29 \<le> length e' \<and> e' ! 0 \<noteq> 1 \<longrightarrow>
        decryptData h' (Some e') pw
          = Inl (case pw of None \<Rightarrow> password_error
                 | Some w \<Rightarrow> if w = [] then password_error else unsupported_version (e' ! 0)))"
proof (intro conjI impI)
  assume r: "returned (encryptData h rnd now data password) = Inr E"
  then obtain md where "encryptData h rnd now data password = Inr (E, md)"
    by (auto simp: returned_def split: sum.splits)
  then obtain d w where dw: "data = Some d" "password = Some w"
    and E: "E = 1 # getRandomValues rnd 0 16 @ getRandomValues rnd 16 12
                 @ aes_gcm_encrypt h (pbkdf2 h w (getRandomValues rnd 0 16) 100000)
                     (getRandomValues rnd 16 12) d"
    using encryptData_Inr by blast
  show "\<exists>d w. data = Some d \<and> password = Some w \<and>
         (let salt = getRandomValues rnd 0 16;
              iv = getRandomValues rnd 16 12;
              ct = aes_gcm_encrypt h (pbkdf2 h w salt 100000) iv d
          in E ! 0 = 1
             \<and> slice E 1 17 = salt \<and> length salt = 16
             \<and> slice E 17 29 = iv \<and> length iv = 12
             \<and> slice_from E 29 = ct
             \<and> length E = 29 + length ct
             \<and> (min_output h t \<longrightarrow> 29 + t \<le> length E))"
    using dw E
    by (auto simp: Let_def slice_def slice_from_def length_getRandomValues min_output_def)
next
  assume "length e < 29"
  then show "decryptData h' (Some e) pw = Inl insufficient_length"
    by (simp add: decryptData_def)
next
  assume "29 \<le> length e' \<and> e' ! 0 \<noteq> 1"
  then show "decryptData h' (Some e') pw
          = Inl (case pw of None \<Rightarrow> password_error
                 | Some w \<Rightarrow> if w = [] then password_error else unsupported_version (e' ! 0))"
    by (simp add: decryptData_def Let_def split: option.splits)
qed

theorem envelope_wire_format_witness:
  "returned (encryptData toy_host zero_stream ''2025-01-01T00:00:00.000Z''
               (Some [1, 2, 3, 4, 5]) (Some ''correct'')) = Inr toy_envelope
   \<and> toy_envelope ! 0 = 1
   \<and> slice toy_envelope 1 17 = replicate 16 0
   \<and> slice toy_envelope 17 29 = replicate 12 0
   \<and> slice_from toy_envelope 29
        = toy_seal (''correct'', replicate 16 0) (replicate 12 0) [1, 2, 3, 4, 5]
   \<and> length toy_envelope = 112
   \<and> min_output toy_host 3 \<and> 29 + 3 \<le> length toy_envelope
   \<and> length [1, 2, 3 :: byte] < 29
   \<and> decryptData toy_host (Some [1, 2, 3]) (Some ''correct'') = Inl insufficient_length
   \<and> 29 \<le> length (replicate 29 (2::byte)) \<and> replicate 29 (2::byte) ! 0 \<noteq> 1
   \<and> decryptData toy_host (Some (replicate 29 2)) (Some ''correct'')
        = Inl (unsupported_version 2)"
proof -
  have a: "length [1, 2, 3 :: byte] < 29" by simp
  have b: "29 \<le> length (replicate 29 (2::byte)) \<and> replicate 29 (2::byte) ! 0 \<noteq> 1" by simp
  have c: "slice_from toy_envelope 29
        = toy_seal (''correct'', replicate 16 0) (replicate 12 0) [1, 2, 3, 4, 5]"
    by (simp add: toy_envelope_def slice_from_def)
  show ?thesis
    using envelope_wire_format [of toy_host zero_stream "''2025-01-01T00:00:00.000Z''"
        "Some [1, 2, 3, 4, 5]" "Some ''correct''" toy_envelope 3 "[1, 2, 3]" toy_host
        "Some ''correct''" "replicate 29 2"]
      toy_encrypts toy_min_output a b c length_toy_envelope
    by (simp add: zero_stream_values Let_def)
qed

subsection \<open>Wrong password and tampering\<close>

text \<open>
  C2, as stated: every single-bit flip of the envelope makes \<open>decryptData\<close> fail with the
  one \<^verbatim>\<open>Decryption failed\<close> error. It does not hold for byte 0: the version test comes
  first and throws a different error. Flipping bit 0 of byte 0 of an envelope gives
  version 0.
\<close>

theorem version_flip_counterexample:
  "returned (encryptData toy_host zero_stream ''2025-01-01T00:00:00.000Z''
               (Some [1, 2, 3, 4, 5]) (Some ''correct'')) = Inr toy_envelope
   \<and> decryptData toy_host (Some (flip_bit_at toy_envelope 0 0)) (Some ''correct'')
       = Inl (Error ''Unsupported encryption version: 0'')
   \<and> decryptData toy_host (Some (flip_bit_at toy_envelope 0 0)) (Some ''correct'')
       \<noteq> Inl decryption_failed"
proof -
  have "decryptData toy_host (Some (flip_bit_at toy_envelope 0 0)) (Some ''correct'')
       = Inl (Error ''Unsupported encryption version: 0'')"
    by (simp add: decryptData_def flip_bit_at_def toy_envelope_def unsupported_version_def
        show_byte_def digit_char_def toy_seal_def)
  then show ?thesis
    using toy_encrypts by (simp add: decryption_failed_def Error_def)
qed

text \<open>
  C2, amended. Let \<open>E\<close> be an envelope returned by \<open>encryptData\<close> for the password \<open>W1\<close>, with
  salt \<open>salt\<close>, nonce \<open>iv\<close> and ciphertext \<open>ct\<close>, and let \<open>W2\<close> be any non-empty password.
  Decrypting \<open>E\<close> with \<open>W2\<close>, or \<open>E\<close> with a bit flipped in a byte of the salt, of the nonce
  or of the ciphertext (bytes 1 to the end), reaches the provider: the call returns the
  plaintext the provider's AES-GCM decryption returns for the key derived from \<open>W2\<close> and
  the salt, nonce and ciphertext read from the envelope, and whenever the provider rejects
  them, for whichever reason, it fails with the one \<^verbatim>\<open>Decryption failed\<close> error; no other
  error is possible. Whether the provider rejects under a different password or after a
  flipped bit is decided by PBKDF2 and AES-GCM alone. A flipped bit in byte 0 does not
  reach the provider; it fails with \<^verbatim>\<open>Unsupported encryption version\<close>, a different error.
\<close>

theorem decryption_failure_is_uniform:
  assumes enc: "returned (encryptData h rnd now (Some P) (Some W1)) = Inr E"
    and W2: "W2 \<noteq> []"
    and salt: "salt = getRandomValues rnd 0 16" and iv: "iv = getRandomValues rnd 16 12"
    and ct: "ct = aes_gcm_encrypt h (pbkdf2 h W1 salt 100000) iv P"
  shows "length E = 29 + length ct
       \<and> returned (decryptData h (Some E) (Some W2))
           = (case aes_gcm_decrypt h (pbkdf2 h W2 salt 100000) iv ct of
                None \<Rightarrow> Inl decryption_failed | Some p \<Rightarrow> Inr p)
       \<and> (n < 16 \<longrightarrow>
            returned (decryptData h (Some (flip_bit_at E (1 + n) j)) (Some W2))
              = (case aes_gcm_decrypt h (pbkdf2 h W2 (flip_bit_at salt n j) 100000) iv ct of
                   None \<Rightarrow> Inl decryption_failed | Some p \<Rightarrow> Inr p))
       \<and> (n < 12 \<longrightarrow>
            returned (decryptData h (Some (flip_bit_at E (17 + n) j)) (Some W2))
              = (case aes_gcm_decrypt h (pbkdf2 h W2 salt 100000) (flip_bit_at iv n j) ct of
                   None \<Rightarrow> Inl decryption_failed | Some p \<Rightarrow> Inr p))
       \<and> (n < length ct \<longrightarrow>
            returned (decryptData h (Some (flip_bit_at E (29 + n) j)) (Some W2))
              = (case aes_gcm_decrypt h (pbkdf2 h W2 salt 100000) iv (flip_bit_at ct n j) of
                   None \<Rightarrow> Inl decryption_failed | Some p \<Rightarrow> Inr p))
       \<and> (j < 8 \<longrightarrow>
            decryptData h (Some (flip_bit_at E 0 j)) (Some W2)
              = Inl (unsupported_version (1 XOR push_bit j 1))
            \<and> unsupported_version (1 XOR push_bit j 1) \<noteq> decryption_failed)"
proof -
  from encryptData_returned [OF enc]
  have av: "crypto_defined h" "subtle_defined h" and E: "E = 1 # salt @ iv @ ct"
    by (simp_all add: salt iv ct)
  have ls: "length salt = 16" and li: "length iv = 12"
    by (simp_all add: salt iv length_getRandomValues)
  note envelope = decryptData_envelope [OF av W2]
  have len: "length E = 29 + length ct" by (simp add: E ls li)
  have plain: "returned (decryptData h (Some E) (Some W2))
           = (case aes_gcm_decrypt h (pbkdf2 h W2 salt 100000) iv ct of
                None \<Rightarrow> Inl decryption_failed | Some p \<Rightarrow> Inr p)"
    unfolding E using ls li by (rule envelope)
  have in_salt: "returned (decryptData h (Some (flip_bit_at E (1 + n) j)) (Some W2))
           = (case aes_gcm_decrypt h (pbkdf2 h W2 (flip_bit_at salt n j) 100000) iv ct of
                None \<Rightarrow> Inl decryption_failed | Some p \<Rightarrow> Inr p)"
    if n: "n < 16"
  proof -
    have f: "flip_bit_at E (1 + n) j = 1 # flip_bit_at salt n j @ iv @ ct"
      using n ls by (simp add: E flip_bit_at_Cons_pos flip_bit_at_append)
    have "length (flip_bit_at salt n j) = 16" by (simp add: length_flip_bit_at ls)
    then show ?thesis unfolding f using li by (rule envelope)
  qed
  have in_iv: "returned (decryptData h (Some (flip_bit_at E (17 + n) j)) (Some W2))
           = (case aes_gcm_decrypt h (pbkdf2 h W2 salt 100000) (flip_bit_at iv n j) ct of
                None \<Rightarrow> Inl decryption_failed | Some p \<Rightarrow> Inr p)"
    if n: "n < 12"
  proof -
    have f: "flip_bit_at E (17 + n) j = 1 # salt @ flip_bit_at iv n j @ ct"
      using n ls li by (simp add: E flip_bit_at_Cons_pos flip_bit_at_append)
    have "length (flip_bit_at iv n j) = 12" by (simp add: length_flip_bit_at li)
    with ls show ?thesis unfolding f by (rule envelope)
  qed
  have in_ct: "returned (decryptData h (Some (flip_bit_at E (29 + n) j)) (Some W2))
           = (case aes_gcm_decrypt h (pbkdf2 h W2 salt 100000) iv (flip_bit_at ct n j) of
                None \<Rightarrow> Inl decryption_failed | Some p \<Rightarrow> Inr p)"
  proof -
    have f: "flip_bit_at E (29 + n) j = 1 # salt @ iv @ flip_bit_at ct n j"
      using ls li by (simp add: E flip_bit_at_Cons_pos flip_bit_at_append)
    show ?thesis unfolding f using ls li by (rule envelope)
  qed
  have version: "decryptData h (Some (flip_bit_at E 0 j)) (Some W2)
                   = Inl (unsupported_version (1 XOR push_bit j 1))
                 \<and> unsupported_version (1 XOR push_bit j 1) \<noteq> decryption_failed"
    if j: "j < 8"
  proof -
    have f: "flip_bit_at E 0 j = (1 XOR push_bit j 1) # salt @ iv @ ct"
      by (simp add: E flip_bit_at_def)
    have ne: "(1::byte) XOR push_bit j 1 \<noteq> 1" using j by (rule flipped_byte_differs)
    have "decryptData h (Some (flip_bit_at E 0 j)) (Some W2)
            = Inl (unsupported_version (1 XOR push_bit j 1))"
      unfolding f using ne W2 ls li by (simp add: decryptData_def Let_def)
    moreover have "unsupported_version (1 XOR push_bit j 1) \<noteq> decryption_failed"
      by (simp add: unsupported_version_def decryption_failed_def Error_def)
    ultimately show ?thesis by simp
  qed
  from len plain in_salt in_iv in_ct version show ?thesis by blast
qed

theorem decryption_failure_is_uniform_witness:
  "returned (encryptData toy_host zero_stream ''2025-01-01T00:00:00.000Z''
               (Some [1, 2, 3, 4, 5]) (Some ''correct'')) = Inr toy_envelope
   \<and> ''wrong'' \<noteq> [] \<and> ''correct'' \<noteq> []
   \<and> length toy_envelope = 112
   \<and> returned (decryptData toy_host (Some toy_envelope) (Some ''wrong'')) = Inl decryption_failed
   \<and> returned (decryptData toy_host (Some toy_envelope) (Some ''correct'')) = Inr [1, 2, 3, 4, 5]
   \<and> (5::nat) < 16
   \<and> returned (decryptData toy_host (Some (flip_bit_at toy_envelope 6 3)) (Some ''correct''))
       = Inl decryption_failed
   \<and> (5::nat) < 12
   \<and> returned (decryptData toy_host (Some (flip_bit_at toy_envelope 22 3)) (Some ''correct''))
       = Inl decryption_failed
   \<and> (5::nat) < length (toy_seal (''correct'', replicate 16 0) (replicate 12 0) [1, 2, 3, 4, 5])
   \<and> returned (decryptData toy_host (Some (flip_bit_at toy_envelope 34 3)) (Some ''correct''))
       = Inl decryption_failed
   \<and> (3::nat) < 8
   \<and> decryptData toy_host (Some (flip_bit_at toy_envelope 0 3)) (Some ''correct'')
       = Inl (unsupported_version 9)"
proof -
  let ?k = "(''correct'', replicate 16 (0::byte))" and ?iv = "replicate 12 (0::byte)"
  let ?ct = "toy_seal ?k ?iv [1, 2, 3, 4, 5]"
  have nine: "(1::byte) XOR push_bit 3 1 = 9" by simp
  have lct: "length ?ct = 83" by (simp add: toy_seal_def toy_header_def frame_def)
  have d: "aes_gcm_decrypt toy_host = toy_open" "aes_gcm_encrypt toy_host = toy_seal"
    "\<And>w s n. pbkdf2 toy_host w s n = (w, s)"
    by (simp_all add: toy_host_def)
  have wrong: "toy_open (''wrong'', replicate 16 0) ?iv ?ct = None"
    by (rule toy_wrong_key) simp
  have right: "toy_open ?k ?iv ?ct = Some [1, 2, 3, 4, 5]"
    by (simp add: toy_open_Some)
  have fs: "flip_bit_at (replicate 16 (0::byte)) 5 3 \<noteq> replicate 16 0"
    by (rule flip_bit_at_differs) simp_all
  have fi: "flip_bit_at ?iv 5 3 \<noteq> ?iv"
    by (rule flip_bit_at_differs) simp_all
  have salt_flip: "toy_open (''correct'', flip_bit_at (replicate 16 0) 5 3) ?iv ?ct = None"
    using fs by (intro toy_wrong_key) simp
  have iv_flip: "toy_open ?k (flip_bit_at ?iv 5 3) ?ct = None"
    using fi by (intro toy_wrong_key) simp
  have ct_flip: "toy_open ?k ?iv (flip_bit_at ?ct 5 3) = None"
    by (rule toy_flip) (simp_all add: lct)
  note w = decryption_failure_is_uniform
      [OF toy_encrypts, of "''wrong''" "replicate 16 0" "replicate 12 0" ?ct 5 3]
  note c = decryption_failure_is_uniform
      [OF toy_encrypts, of "''correct''" "replicate 16 0" "replicate 12 0" ?ct 5 3]
  show ?thesis
    using w c toy_encrypts
    by (simp add: zero_stream_values d wrong right salt_flip iv_flip ct_flip nine lct)
qed

text \<open>
  Whether a different password is rejected is a property of the provider. With a key
  derivation that gives two passwords the same key, the envelope made with one is opened
  by the other.
\<close>

lemma padded_password_decrypts:
  "returned (decryptData padding_host
      (Some (1 # getRandomValues rnd 0 16 @ getRandomValues rnd 16 12
               @ aes_gcm_encrypt padding_host
                   (pbkdf2 padding_host ''a'' (getRandomValues rnd 0 16) 100000)
                   (getRandomValues rnd 16 12) P))
      (Some [CHR ''a'', CHR 0x00])) = Inr P"
proof -
  have av: "crypto_defined padding_host" "subtle_defined padding_host"
    by (simp_all add: padding_host_def toy_host_def)
  have k: "pbkdf2 padding_host [CHR ''a'', CHR 0x00] s n = pbkdf2 padding_host ''a'' s n" for s n
    by (simp add: padding_host_def strip_nul_def)
  have o: "aes_gcm_decrypt padding_host k iv (aes_gcm_encrypt padding_host k iv d) = Some d" for k iv d
    by (simp add: padding_host_def toy_host_def toy_open_Some)
  show ?thesis
    using decryptData_envelope [OF av, of "[CHR ''a'', CHR 0x00]" "getRandomValues rnd 0 16"
        "getRandomValues rnd 16 12"]
    by (simp add: length_getRandomValues k o)
qed

lemma padded_password_accepted:
  "\<exists>E. returned (encryptData padding_host rnd now (Some P) (Some ''a'')) = Inr E
       \<and> returned (decryptData padding_host (Some E) (Some [CHR ''a'', CHR 0x00])) = Inr P
       \<and> [CHR ''a'', CHR 0x00] \<noteq> ''a''"
proof -
  have av: "crypto_defined padding_host" "subtle_defined padding_host"
    by (simp_all add: padding_host_def toy_host_def)
  show ?thesis
    using encryptData_envelope [OF av, of "''a''" rnd now P] padded_password_decrypts [of rnd P]
    by simp
qed
section \<open>Properties of the commit store\<close>

subsection \<open>What each operation does to the commits table\<close>

lemma init_new_simulator:
  "init new_simulator h now =
     (Inr (), \<lparr> db = Some \<lparr> entries = [], entries_seq = 0, commits = [root_commit h now] \<rparr>,
               metadata = \<lparr> commitHash = Some h, parentHash = None,
                            commitMessage = Some ''Initial commit'', commitDate = Some now \<rparr> \<rparr>)"
  by (simp add: init_def ensureInitialCommit_def new_simulator_def empty_database_def
      insert_or_ignore_commit_def hash_exists_def root_commit_def)

lemma addEntry_existing_hash:
  assumes "db s = Some d" and "hash_exists d h"
  shows "addEntry s txt entry_at h now
           = (Inl unique_constraint_failed, s \<lparr> db := Some (insert_entry d txt entry_at) \<rparr>)"
  using assms
  by (simp add: addEntry_def insert_commit_def insert_entry_def hash_exists_def Let_def)

lemma addEntry_fresh_hash:
  assumes "db s = Some d" and "\<not> hash_exists d h"
  shows "addEntry s txt entry_at h now
           = (Inr h,
              s \<lparr> db := Some ((insert_entry d txt entry_at)
                         \<lparr> commits := commits d @
                              [\<lparr> hash = h, parent_hash = commitHash (metadata s),
                                 message = take 50 txt, created_at = now \<rparr>] \<rparr>),
                  metadata := \<lparr> commitHash = Some h, parentHash = commitHash (metadata s),
                                commitMessage = Some (take 50 txt), commitDate = Some now \<rparr> \<rparr>)"
  using assms
  by (simp add: addEntry_def insert_commit_def insert_entry_def hash_exists_def Let_def)

lemma ensureInitialCommit_existing_hash:
  assumes "db s = Some d" and "hash_exists d h"
  shows "fst (ensureInitialCommit s h now) = Inr ()
       \<and> db (snd (ensureInitialCommit s h now)) = Some d"
  using assms
  by (simp add: ensureInitialCommit_def insert_or_ignore_commit_def Let_def)

text \<open>step facts about rows\<close>

lemma commit_rows_addEntry:
  "commit_rows (snd (addEntry s txt entry_at h now)) =
     (if db s = None \<or> h \<in> set (map hash (commit_rows s)) then commit_rows s
      else commit_rows s @ [\<lparr> hash = h, parent_hash = commitHash (metadata s),
                               message = take 50 txt, created_at = now \<rparr>])"
  by (simp add: addEntry_def commit_rows_def insert_commit_def insert_entry_def hash_exists_def
      Let_def split: option.splits)

lemma commit_rows_clearData:
  "commit_rows (snd (clearData s)) = root_rows (commit_rows s)"
  by (simp add: clearData_def commit_rows_def delete_child_commits_def delete_entries_def
      root_rows_def split: option.splits)

lemma commit_rows_ensureInitialCommit:
  "commit_rows (snd (ensureInitialCommit s h now)) =
     (if db s = None \<or> commitHash (metadata s) \<noteq> None \<or> h \<in> set (map hash (commit_rows s))
      then commit_rows s
      else commit_rows s @ [root_commit h now])"
  by (simp add: ensureInitialCommit_def commit_rows_def insert_or_ignore_commit_def
      hash_exists_def root_commit_def Let_def split: option.splits)

lemma commit_rows_init:
  "commit_rows (snd (init s h now)) =
     (if commitHash (metadata s) \<noteq> None then [] else [root_commit h now])"
  by (simp add: init_def commit_rows_ensureInitialCommit)
     (simp add: commit_rows_def empty_database_def)

lemma hashes_unique_step:
  assumes "hashes_unique (commit_rows s)"
  shows "hashes_unique (commit_rows (apply_store_op s x))"
proof (cases x)
  case (Init h now)
  then show ?thesis
    by (simp add: commit_rows_init hashes_unique_def)
next
  case (EnsureInitialCommit h now)
  with assms show ?thesis
    by (simp add: commit_rows_ensureInitialCommit hashes_unique_def root_commit_def)
next
  case (AddEntry body entry_at h now)
  with assms show ?thesis
    by (simp add: commit_rows_addEntry hashes_unique_def)
next
  case ClearData
  with assms show ?thesis
    by (simp add: commit_rows_clearData hashes_unique_def root_rows_def distinct_map_filter)
qed

lemma hashes_unique_run:
  "hashes_unique (commit_rows s) \<Longrightarrow> hashes_unique (commit_rows (run_store_ops s xs))"
  by (induction xs arbitrary: s) (simp_all add: hashes_unique_step)

lemma hashes_unique_reachable: "hashes_unique (commit_rows (run_store_ops new_simulator xs))"
  by (rule hashes_unique_run) (simp add: new_simulator_def commit_rows_def hashes_unique_def)

subsection \<open>What the operations preserve\<close>

text \<open>
  Hashes stay unique in every reachable state. Once \<^verbatim>\<open>init\<close> has run on a new simulator,
  exactly one row is a root for as long as \<^verbatim>\<open>init\<close> is not called again, and every parent
  exists for as long as \<^verbatim>\<open>clearData\<close> is not called either.
\<close>

lemma head_set_step:
  assumes "head_set s" "\<not> is_init x"
  shows "head_set (apply_store_op s x)"
  using assms
  by (cases x)
     (auto simp: head_set_def ensureInitialCommit_def addEntry_def clearData_def
        insert_commit_def Let_def split: option.splits)

lemma single_root_step:
  assumes "head_set s" "single_root (commit_rows s)" "\<not> is_init x"
  shows "single_root (commit_rows (apply_store_op s x))"
proof (cases x)
  case (Init h now)
  with assms show ?thesis by simp
next
  case (EnsureInitialCommit h now)
  with assms show ?thesis
    by (simp add: commit_rows_ensureInitialCommit head_set_def)
next
  case (AddEntry body entry_at h now)
  with assms show ?thesis
    by (auto simp: commit_rows_addEntry head_set_def single_root_def root_rows_def)
next
  case ClearData
  with assms show ?thesis
    by (simp add: commit_rows_clearData single_root_def root_rows_def)
qed

lemma single_root_run:
  assumes "head_set s" "single_root (commit_rows s)" "list_all (\<lambda>x. \<not> is_init x) xs"
  shows "single_root (commit_rows (run_store_ops s xs))"
  using assms
  by (induction xs arbitrary: s) (simp_all add: head_set_step single_root_step)

lemma single_root_after_init:
  assumes "list_all (\<lambda>x. \<not> is_init x) xs"
  shows "single_root (commit_rows (run_store_ops new_simulator (Init h now # xs)))"
proof -
  have "head_set (snd (init new_simulator h now))"
    by (simp add: init_new_simulator head_set_def)
  moreover have "single_root (commit_rows (snd (init new_simulator h now)))"
    by (simp add: init_new_simulator commit_rows_def single_root_def root_rows_def root_commit_def)
  ultimately show ?thesis using assms by (simp add: single_root_run)
qed

lemma parents_exist_append:
  "parents_exist rows \<Longrightarrow> (case parent_hash c of None \<Rightarrow> True | Some p \<Rightarrow> p \<in> set (map hash rows))
     \<Longrightarrow> parents_exist (rows @ [c])"
  by (auto simp: parents_exist_def list_all_iff split: option.splits)

lemma parents_exist_step:
  assumes "head_set s" "head_in_store s" "parents_exist (commit_rows s)"
    and "\<not> is_init x" "\<not> is_clear x"
  shows "head_set (apply_store_op s x) \<and> head_in_store (apply_store_op s x)
       \<and> parents_exist (commit_rows (apply_store_op s x))"
proof (cases x)
  case (Init h now)
  with assms show ?thesis by simp
next
  case (EnsureInitialCommit h now)
  with assms show ?thesis
    by (simp add: ensureInitialCommit_def head_set_def)
next
  case (AddEntry body entry_at h now)
  have hs: "head_set (apply_store_op s x)" using assms by (simp add: head_set_step)
  obtain d p where d: "db s = Some d" and p: "commitHash (metadata s) = Some p"
    and pin: "p \<in> set (map hash (commit_rows s))"
    using assms(1,2) by (auto simp: head_set_def head_in_store_def split: option.splits)
  show ?thesis
  proof (cases "h \<in> set (map hash (commit_rows s))")
    case True
    then have "hash_exists d h" using d by (simp add: hash_exists_def commit_rows_def)
    then have "apply_store_op s x = s \<lparr> db := Some (insert_entry d body entry_at) \<rparr>"
      using AddEntry d by (simp add: addEntry_existing_hash)
    then have "metadata (apply_store_op s x) = metadata s" by simp
    moreover have "commit_rows (apply_store_op s x) = commit_rows s"
      using AddEntry True by (simp add: commit_rows_addEntry)
    ultimately show ?thesis using hs assms(3) p pin
      by (simp add: head_in_store_def)
  next
    case False
    then have nh: "\<not> hash_exists d h" using d by (simp add: hash_exists_def commit_rows_def)
    have rows: "commit_rows (apply_store_op s x)
                 = commit_rows s @ [\<lparr> hash = h, parent_hash = Some p,
                                        message = take 50 body, created_at = now \<rparr>]"
      using AddEntry False d p by (simp add: commit_rows_addEntry)
    have "commitHash (metadata (apply_store_op s x)) = Some h"
      using AddEntry d nh by (simp add: addEntry_fresh_hash)
    then have "head_in_store (apply_store_op s x)"
      by (simp add: head_in_store_def rows)
    moreover have "parents_exist (commit_rows (apply_store_op s x))"
      unfolding rows using assms(3) pin by (intro parents_exist_append) simp_all
    ultimately show ?thesis using hs by simp
  qed
next
  case ClearData
  with assms show ?thesis by simp
qed

lemma parents_exist_run:
  assumes "head_set s" "head_in_store s" "parents_exist (commit_rows s)"
    and "list_all (\<lambda>x. \<not> is_init x \<and> \<not> is_clear x) xs"
  shows "parents_exist (commit_rows (run_store_ops s xs))"
  using assms
proof (induction xs arbitrary: s)
  case Nil
  then show ?case by simp
next
  case (Cons x xs)
  then have "head_set (apply_store_op s x) \<and> head_in_store (apply_store_op s x)
       \<and> parents_exist (commit_rows (apply_store_op s x))"
    by (intro parents_exist_step) simp_all
  with Cons show ?case by simp
qed

lemma parents_exist_without_clear:
  assumes "list_all (\<lambda>x. \<not> is_init x \<and> \<not> is_clear x) xs"
  shows "parents_exist (commit_rows (run_store_ops new_simulator (Init h now # xs)))"
proof -
  let ?s = "snd (init new_simulator h now)"
  have "head_set ?s" by (simp add: init_new_simulator head_set_def)
  moreover have "head_in_store ?s"
    by (simp add: init_new_simulator head_in_store_def commit_rows_def root_commit_def)
  moreover have "parents_exist (commit_rows ?s)"
    by (simp add: init_new_simulator commit_rows_def parents_exist_def root_commit_def)
  ultimately show ?thesis using assms by (simp add: parents_exist_run)
qed

subsection \<open>Appending after clearing\<close>

text \<open>
  C6. The claim: in every state reachable by initialisation, appends and clear-data,
  exactly one commit has a null parent and every non-null parent is the hash of a commit
  in the store. \<^verbatim>\<open>clearData\<close> deletes every non-root commit but leaves the head metadata
  on the deleted head, so the next \<^verbatim>\<open>addEntry\<close> stores that hash as parent. On the sequence
  of the suite's own test \<^verbatim>\<open>should allow new commits after clear\<close> the store ends with a
  commit whose parent is not in the store.
\<close>

theorem append_after_clear_dangling_parent:
  "commit_rows (run_store_ops new_simulator
      [Init ''00000000'' ''t0'',
       AddEntry ''Before clear'' ''t1'' ''11111111'' ''t1'',
       ClearData,
       AddEntry ''After clear'' ''t2'' ''22222222'' ''t2''])
     = [\<lparr> hash = ''00000000'', parent_hash = None,
          message = ''Initial commit'', created_at = ''t0'' \<rparr>,
        \<lparr> hash = ''22222222'', parent_hash = Some ''11111111'',
          message = ''After clear'', created_at = ''t2'' \<rparr>]
   \<and> \<not> parents_exist (commit_rows (run_store_ops new_simulator
      [Init ''00000000'' ''t0'',
       AddEntry ''Before clear'' ''t1'' ''11111111'' ''t1'',
       ClearData,
       AddEntry ''After clear'' ''t2'' ''22222222'' ''t2'']))"
  by (simp add: init_new_simulator addEntry_def clearData_def insert_commit_def insert_entry_def
      hash_exists_def delete_child_commits_def delete_entries_def commit_rows_def
      root_commit_def parents_exist_def Let_def)

subsection \<open>Appending an existing hash\<close>

text \<open>
  C7. The claim: appending a commit whose hash is already in the store is a no-op that
  raises no error. \<^verbatim>\<open>ensureInitialCommit\<close> inserts with \<^verbatim>\<open>INSERT OR IGNORE\<close>, but
  \<^verbatim>\<open>addEntry\<close> inserts with a plain \<^verbatim>\<open>INSERT\<close>: when the generated hash equals the hash of
  the root, \<^verbatim>\<open>addEntry\<close> throws the primary-key violation, after it has inserted the entry
  row. The commits table and the head metadata are unchanged.
\<close>

theorem append_existing_hash_throws:
  "addEntry (snd (init new_simulator ''00000000'' ''t0'')) ''note'' ''t1'' ''00000000'' ''t1''
     = (Inl (Error ''UNIQUE constraint failed: commits.hash''),
        \<lparr> db = Some \<lparr> entries = [\<lparr> entry_id = 1, entry_text = ''note'',
                                   entry_created_at = ''t1'' \<rparr>],
                      entries_seq = 1,
                      commits = [\<lparr> hash = ''00000000'', parent_hash = None,
                                   message = ''Initial commit'', created_at = ''t0'' \<rparr>] \<rparr>,
          metadata = \<lparr> commitHash = Some ''00000000'', parentHash = None,
                       commitMessage = Some ''Initial commit'', commitDate = Some ''t0'' \<rparr> \<rparr>)"
  by (simp add: init_new_simulator addEntry_def insert_commit_def insert_entry_def
      hash_exists_def root_commit_def unique_constraint_failed_def Let_def)

subsection \<open>Sequential appends\<close>

lemma expected_chain_hashes: "map hash (expected_chain head as) = map gen_hash as"
  by (induction head as rule: expected_chain.induct) simp_all

lemma expected_chain_parents:
  "map parent_hash (expected_chain head as) = map Some (butlast (head # map gen_hash as))"
  by (induction head as rule: expected_chain.induct) simp_all

lemma expected_chain_no_root: "root_rows (expected_chain head as) = []"
  by (induction head as rule: expected_chain.induct) (simp_all add: root_rows_def)

lemma append_all_step:
  "addEntry s body entry_at h now = (Inr r, s1)
     \<Longrightarrow> append_all s ((body, entry_at, h, now) # as) = append_all s1 as"
  by simp

lemma addEntry_fresh_state:
  assumes "db s = Some d" and "\<not> hash_exists d h"
  obtains s1 where "addEntry s body entry_at h now = (Inr h, s1)"
    and "db s1 = Some ((insert_entry d body entry_at)
                 \<lparr> commits := commits d @ [\<lparr> hash = h, parent_hash = commitHash (metadata s),
                                               message = take 50 body, created_at = now \<rparr>] \<rparr>)"
    and "commitHash (metadata s1) = Some h"
  using assms by (simp add: addEntry_fresh_hash)

lemma append_all_chain:
  assumes "db s = Some d" "commitHash (metadata s) = Some head" "append_all s as = Inr s'"
  shows "commit_rows s' = commits d @ expected_chain head as
       \<and> commitHash (metadata s') = Some (last (head # map gen_hash as))
       \<and> db s' \<noteq> None"
  using assms
proof (induction head as arbitrary: s d rule: expected_chain.induct)
  case (1 head)
  then show ?case by (simp add: commit_rows_def)
next
  case (2 head body entry_at h now as)
  show ?case
  proof (cases "hash_exists d h")
    case True
    with 2 show ?thesis by (simp add: addEntry_existing_hash)
  next
    case False
    from addEntry_fresh_state [OF 2(2) False, of body entry_at now]
    obtain s1 where step: "addEntry s body entry_at h now = (Inr h, s1)"
      and db1: "db s1 = Some ((insert_entry d body entry_at)
                 \<lparr> commits := commits d @ [\<lparr> hash = h, parent_hash = commitHash (metadata s),
                                               message = take 50 body, created_at = now \<rparr>] \<rparr>)"
      and head1: "commitHash (metadata s1) = Some h"
      by blast
    from 2(4) have "append_all s1 as = Inr s'" by (simp only: append_all_step [OF step])
    from "2.IH" [OF db1 head1 this] show ?thesis using 2(3) by simp
  qed
qed

lemma append_all_succeeds:
  assumes "db s = Some d" "distinct (map hash (commits d) @ map gen_hash as)"
  shows "\<exists>s'. append_all s as = Inr s'"
  using assms
proof (induction as arbitrary: s d)
  case Nil
  then show ?case by simp
next
  case (Cons a as)
  obtain body entry_at h now where a: "a = (body, entry_at, h, now)" by (cases a) auto
  have fresh: "\<not> hash_exists d h" using Cons.prems(2) a by (auto simp: hash_exists_def)
  let ?d1 = "(insert_entry d body entry_at)
               \<lparr> commits := commits d @ [\<lparr> hash = h, parent_hash = commitHash (metadata s),
                                             message = take 50 body, created_at = now \<rparr>] \<rparr>"
  from addEntry_fresh_state [OF Cons.prems(1) fresh, of body entry_at now]
  obtain s1 where step: "addEntry s body entry_at h now = (Inr h, s1)"
    and db1: "db s1 = Some ?d1"
    by blast
  have "distinct (map hash (commits ?d1) @ map gen_hash as)"
    using Cons.prems(2) a by auto
  from Cons.IH [OF db1 this] obtain s' where "append_all s1 as = Inr s'" by blast
  then show ?case by (simp only: a append_all_step [OF step]) blast
qed

lemma four_appends_run:
  "append_all (snd (init new_simulator ''00000000'' ''t0'')) four_appends = Inr after_four_appends"
  by (simp add: init_new_simulator four_appends_def after_four_appends_def addEntry_def
      insert_commit_def insert_entry_def hash_exists_def root_commit_def Let_def)

text \<open>
  C8. On a new simulator initialised with root hash \<open>h0\<close>, a sequence \<open>as\<close> of \<open>N\<close> appends
  returns whenever the generated hashes are distinct and differ from \<open>h0\<close>; and whenever
  it returns, the store holds \<open>N + 1\<close> commits, the root is the only row with a null
  parent, and the appended rows are, in order, the rows with the generated hashes, each
  with the hash of the previous head as parent: the parents are \<open>h0\<close> followed by the
  generated hashes without the last. The head metadata names the last hash, so this also
  says what the head was before each append.
\<close>

theorem sequential_appends_form_chain:
  "(distinct (h0 # map gen_hash as) \<longrightarrow>
      (\<exists>s. append_all (snd (init new_simulator h0 t0)) as = Inr s))
   \<and> (\<forall>s. append_all (snd (init new_simulator h0 t0)) as = Inr s \<longrightarrow>
          getCommitCount s = Inr (length as + 1)
        \<and> root_rows (commit_rows s) = [root_commit h0 t0]
        \<and> commit_rows s = root_commit h0 t0 # expected_chain h0 as
        \<and> map hash (expected_chain h0 as) = map gen_hash as
        \<and> map parent_hash (expected_chain h0 as) = map Some (butlast (h0 # map gen_hash as))
        \<and> commitHash (metadata s) = Some (last (h0 # map gen_hash as)))"
proof (intro conjI impI allI)
  let ?s0 = "snd (init new_simulator h0 t0)"
  let ?d0 = "\<lparr> entries = [], entries_seq = 0, commits = [root_commit h0 t0] \<rparr>"
  have db0: "db ?s0 = Some ?d0" and head0: "commitHash (metadata ?s0) = Some h0"
    by (simp_all add: init_new_simulator)
  {
    assume "distinct (h0 # map gen_hash as)"
    then have "distinct (map hash (commits ?d0) @ map gen_hash as)"
      by (simp add: root_commit_def)
    from append_all_succeeds [OF db0 this]
    show "\<exists>s. append_all ?s0 as = Inr s" .
  }
  fix s assume run: "append_all ?s0 as = Inr s"
  from append_all_chain [OF db0 head0 run]
  have rows: "commit_rows s = root_commit h0 t0 # expected_chain h0 as"
    and head: "commitHash (metadata s) = Some (last (h0 # map gen_hash as))"
    and db: "db s \<noteq> None"
    by simp_all
  show "commit_rows s = root_commit h0 t0 # expected_chain h0 as" by (rule rows)
  show "commitHash (metadata s) = Some (last (h0 # map gen_hash as))" by (rule head)
  show "root_rows (commit_rows s) = [root_commit h0 t0]"
    using expected_chain_no_root [of h0 as]
    by (simp add: rows root_rows_def root_commit_def)
  have "length (expected_chain h0 as) = length as"
    using arg_cong [OF expected_chain_hashes [of h0 as], of length] by simp
  then show "getCommitCount s = Inr (length as + 1)"
    using db rows by (auto simp: getCommitCount_def commit_rows_def split: option.splits)
  show "map hash (expected_chain h0 as) = map gen_hash as" by (rule expected_chain_hashes)
  show "map parent_hash (expected_chain h0 as) = map Some (butlast (h0 # map gen_hash as))"
    by (rule expected_chain_parents)
qed

theorem sequential_appends_form_chain_witness:
  "distinct (''00000000'' # map gen_hash four_appends)
   \<and> append_all (snd (init new_simulator ''00000000'' ''t0'')) four_appends
       = Inr after_four_appends
   \<and> getCommitCount after_four_appends = Inr 5
   \<and> root_rows (commit_rows after_four_appends) = [root_commit ''00000000'' ''t0'']
   \<and> map parent_hash (commit_rows after_four_appends)
       = [None, Some ''00000000'', Some ''11111111'', Some ''22222222'', Some ''33333333'']
   \<and> commitHash (metadata after_four_appends) = Some ''44444444''"
proof -
  have d: "distinct (''00000000'' # map gen_hash four_appends)"
    by (simp add: four_appends_def)
  have len: "length four_appends + 1 = 5" by (simp add: four_appends_def)
  from sequential_appends_form_chain [of "''00000000''" four_appends "''t0''"] four_appends_run
  have "getCommitCount after_four_appends = Inr (length four_appends + 1)"
    and "root_rows (commit_rows after_four_appends) = [root_commit ''00000000'' ''t0'']"
    and "commit_rows after_four_appends
           = root_commit ''00000000'' ''t0'' # expected_chain ''00000000'' four_appends"
    and "map parent_hash (expected_chain ''00000000'' four_appends)
           = map Some (butlast (''00000000'' # map gen_hash four_appends))"
    and "commitHash (metadata after_four_appends)
           = Some (last (''00000000'' # map gen_hash four_appends))"
    by blast+
  then show ?thesis using d four_appends_run len
    by (simp add: four_appends_def root_commit_def)
qed

section \<open>Properties of saveToFile\<close>

subsection \<open>lib/html-sqlite-core.js: the password is adopted after the write\<close>

text \<open>
  In this version a cancelled save returns \<^verbatim>\<open>{success: false, cancelled: true}\<close>, writes
  nothing and leaves the current password as it was (the metadata of the encryption that
  preceded the picker is stored). Whenever a call changes the current password it has
  returned success after the file write or the download, and the new password is the one
  requested.
\<close>

lemma build_document_keeps_password:
  "build_document h env mf exported password = Inr (doc, mf1)
     \<Longrightarrow> currentPassword mf1 = currentPassword mf \<and> mf_db mf1 = mf_db mf
         \<and> opt_encrypted mf1 = opt_encrypted mf \<and> opt_compression mf1 = opt_compression mf
         \<and> opt_persistToStorage mf1 = opt_persistToStorage mf"
  by (auto simp: build_document_def Let_def split: if_splits sum.splits)

lemma saveToFile_cancelled:
  assumes "env_picker env = PickerThrows err" "err_name err = ''AbortError''"
    and "mf_db mf = Some exported" "build_document h env mf exported password = Inr (doc, mf1)"
  shows "saveToFile h env mf filename password changePassword
           = (Inr \<lparr> success = False, cancelled = Some True, save_method = None,
                    encrypted = None, passwordChanged = None, savedInPlace = None,
                    persistedToStorage = None, result_message = None \<rparr>, mf1, [])
         \<and> currentPassword mf1 = currentPassword mf"
  using assms build_document_keeps_password [OF assms(4)]
  by (simp add: saveToFile_def)

lemma saveToFile_adopts_only_after_write:
  assumes "saveToFile h env mf filename password changePassword = (r, mf', fx)"
    and "currentPassword mf' \<noteq> currentPassword mf"
  shows "\<exists>res doc. r = Inr res \<and> success res
           \<and> (fx = [WroteFile doc] \<or> fx = [Downloaded doc filename])
           \<and> changePassword \<and> truthy password \<and> currentPassword mf' = password"
  using assms
  by (auto simp: saveToFile_def adopt_password_def
      dest: build_document_keeps_password
      split: option.splits sum.splits picker.splits if_splits prod.splits)

lemma lib_cancelled_save_keeps_password:
  "fst (saveToFile toy_host cancelling_env (session_old False) ''app.html'' (Some ''new'') True)
     = Inr \<lparr> success = False, cancelled = Some True, save_method = None,
              encrypted = None, passwordChanged = None, savedInPlace = None,
              persistedToStorage = None, result_message = None \<rparr>
   \<and> currentPassword
        (fst (snd (saveToFile toy_host cancelling_env (session_old False) ''app.html''
                     (Some ''new'') True)))
       = Some ''old''"
  by (simp add: saveToFile_def build_document_def adopt_password_def
      session_old_def cancelling_env_def truthy_def js_or_def
      encryptData_def deriveKey_def toy_host_def typed_set_def uint8array_new_def
      getRandomValues_def Let_def)

subsection \<open>The version that persists to IndexedDB first\<close>

text \<open>
  With \<^verbatim>\<open>persistToStorage\<close> enabled, a call that asks for a password change with a truthy
  password leaves that password as the current one whatever the picker, the download or
  the IndexedDB transaction do afterwards.
\<close>

lemma saveToFile_idb_adopts_before_write:
  assumes "mf_db mf = Some exported" "opt_persistToStorage mf" "changePassword" "truthy password"
  shows "currentPassword (fst (snd (saveToFile_idb h env mf filename password changePassword)))
           = password"
proof -
  let ?mf0 = "adopt_password mf password changePassword"
  obtain r m fx where ps: "persistToStorage h env ?mf0 = (r, m, fx)" by (cases "persistToStorage h env ?mf0") auto
  have "currentPassword ?mf0 = password" using assms(3,4) by (simp add: adopt_password_def)
  then have m: "currentPassword m = password"
    using ps by (auto simp: persistToStorage_def Let_def split: option.splits if_splits sum.splits)
  show ?thesis
    using assms m ps
    by (auto simp: saveToFile_idb_def adopt_password_def Let_def
        dest: build_document_keeps_password
        split: option.splits sum.splits picker.splits share.splits if_splits prod.splits)
qed

text \<open>
  C9. The claim: a cancelled write leaves the session unchanged, and a requested password
  change is adopted only after the write has succeeded. In the version that persists to
  IndexedDB first, with \<^verbatim>\<open>persistToStorage\<close> enabled (the default), the requested password
  is assigned to \<^verbatim>\<open>this.currentPassword\<close> before \<^verbatim>\<open>persistToStorage\<close> and before the picker
  opens. When the user then dismisses the picker, the call returns a cancelled outcome
  (with \<^verbatim>\<open>success: true\<close>) and the current password is the new one.
\<close>

theorem cancelled_save_adopts_password:
  "fst (saveToFile_idb toy_host cancelling_env (session_old True) ''app.html'' (Some ''new'') True)
     = Inr \<lparr> success = True, cancelled = Some True, save_method = None,
              encrypted = None, passwordChanged = None, savedInPlace = None,
              persistedToStorage = Some True,
              result_message = Some ''File save cancelled, but changes are saved locally.'' \<rparr>
   \<and> currentPassword (session_old True) = Some ''old''
   \<and> currentPassword
        (fst (snd (saveToFile_idb toy_host cancelling_env (session_old True) ''app.html''
                     (Some ''new'') True)))
       = Some ''new''"
  by (simp add: saveToFile_idb_def persistToStorage_def build_document_def adopt_password_def
      cancelled_result_def session_old_def cancelling_env_def truthy_def js_or_def
      encryptData_def deriveKey_def toy_host_def typed_set_def uint8array_new_def
      getRandomValues_def Let_def)

section \<open>Properties of the trust manager\<close>

subsection \<open>Matches consume at most the input\<close>

text \<open>
  A match is no longer than the text it starts in, so the length test of \<open>replace_all\<close>
  after a non-empty match always succeeds.
\<close>

lemma first_some_SomeD: "first_some rs = Some r \<Longrightarrow> Some r \<in> set rs"
  by (induction rs rule: first_some.induct) auto

lemma repetitions_bound: "k \<in> set (repetitions cls lo hi q s) \<Longrightarrow> k \<le> length s"
proof -
  assume "k \<in> set (repetitions cls lo hi q s)"
  then have "k \<le> length (takeWhile cls s)"
    by (auto simp: repetitions_def Let_def split: quantifier.splits option.splits)
  then show ?thesis using length_takeWhile_le [of cls s] by linarith
qed

lemma match_items_length: "match_items p s = Some ls \<Longrightarrow> sum_list ls \<le> length s"
proof (induction p s arbitrary: ls rule: match_items.induct)
  case (1 s)
  then show ?case by simp
next
  case (2 cls p s)
  then show ?case by (cases s) (auto split: if_splits)
next
  case (3 cls lo hi q p s)
  from "3.prems" have "Some ls \<in> set (map (\<lambda>k. map_option ((#) k) (match_items p (drop k s)))
                     (repetitions cls lo hi q s))"
    by (auto dest: first_some_SomeD)
  then obtain k ls' where k: "k \<in> set (repetitions cls lo hi q s)"
    and m: "match_items p (drop k s) = Some ls'" and ls: "ls = k # ls'"
    by (auto simp: map_option_case split: option.splits)
  from "3.IH" [OF k m] have "sum_list ls' \<le> length s - k" by simp
  with repetitions_bound [OF k] ls show ?case by simp
next
  case (4 p s)
  then show ?case by (auto split: if_splits)
qed

lemma search_length: "search p s = Some (i, ls) \<Longrightarrow> i + sum_list ls \<le> length s"
proof (induction p s arbitrary: i ls rule: search.induct)
  case (1 p)
  then show ?case using match_items_length [of p "[]"] by auto
next
  case (2 p c t)
  show ?case
  proof (cases "match_items p (c # t)")
    case None
    with "2.prems" obtain j where "search p t = Some (j, ls)" "i = Suc j" by auto
    with "2.IH" [OF None] show ?thesis by simp
  next
    case (Some ms)
    with "2.prems" match_items_length [OF Some] show ?thesis by simp
  qed
qed

lemma replace_all_shortens:
  assumes "search p s = Some (i, ls)" "sum_list ls \<noteq> 0"
  shows "length (drop (i + sum_list ls) s) < length s"
proof -
  have "0 < sum_list ls" using assms(2) by (simp del: sum_list_eq_0_iff)
  with search_length [OF assms(1)] show ?thesis by simp
qed

subsection \<open>The filename pattern\<close>

lemma upper_consts:
  "ascii_upper (CHR ''h'') = CHR ''H''" "ascii_upper (CHR ''t'') = CHR ''T''"
  "ascii_upper (CHR ''m'') = CHR ''M''" "ascii_upper (CHR ''l'') = CHR ''L''"
  by code_simp+

lemma match_ext:
  "match_items ext_pattern s = (if html_ext s then Some [1, 1, 1, 1, 1, 0] else None)"
  by (auto simp: ext_pattern_def lit_def lit_ci_def html_ext_def upper_consts split: list.splits)

lemma html_ext_literal: "html_ext ''.html''"
  by (simp add: html_ext_def upper_consts)


lemma first_some_all_None: "(\<And>k. k \<in> set ks \<Longrightarrow> f k = None) \<Longrightarrow> first_some (map f ks) = None"
  by (induction ks) simp_all

lemma not_ext_if_hex: "is_hex_ci c \<Longrightarrow> \<not> html_ext (c # t)"
  by (auto simp: html_ext_def is_hex_ci_def is_digit_def code_def)

lemma hex_not_dot: "is_hex_ci c \<Longrightarrow> c \<noteq> CHR ''.''"
  by (auto simp: is_hex_ci_def is_digit_def code_def)

lemma drop_inside_run:
  assumes "k < length (takeWhile P s)"
  shows "\<exists>c t. drop k s = c # t \<and> P c"
proof -
  have k: "k < length s" using assms by (meson length_takeWhile_le less_le_trans)
  have "P (s ! k)" using assms by (metis nth_mem set_takeWhileD takeWhile_nth)
  moreover have "drop k s = s ! k # drop (Suc k) s" using k by (simp add: Cons_nth_drop_Suc)
  ultimately show ?thesis by blast
qed

lemma match_ext_inside_run:
  assumes "k < length (takeWhile is_hex_ci s)"
  shows "match_items ext_pattern (drop k s) = None"
proof -
  from drop_inside_run [OF assms] obtain c t where "drop k s = c # t" "is_hex_ci c" by blast
  then show ?thesis by (simp add: match_ext not_ext_if_hex)
qed

lemma hash_pattern_split: "hash_pattern = lit (CHR ''.'') # Rep is_hex_ci 6 (Some 64) Greedy # ext_pattern"
  by (simp add: hash_pattern_def ext_pattern_def)

lemma match_hash_pattern:
  "match_items hash_pattern s =
     (case s of
        [] \<Rightarrow> None
      | c # rest \<Rightarrow>
          let run = length (takeWhile is_hex_ci rest)
          in if c = CHR ''.'' \<and> 6 \<le> run \<and> run \<le> 64 \<and> html_ext (drop run rest)
             then Some [1, run, 1, 1, 1, 1, 1, 0] else None)"
proof (cases s)
  case Nil
  then show ?thesis by (simp add: hash_pattern_split lit_def)
next
  case (Cons c rest)
  let ?run = "length (takeWhile is_hex_ci rest)"
  let ?f = "\<lambda>k. map_option ((#) k) (match_items ext_pattern (drop k rest))"
  have below: "?f k = None" if "k < ?run" for k
    using that by (simp add: match_ext_inside_run)
  have group: "first_some (map ?f (repetitions is_hex_ci 6 (Some 64) Greedy rest))
             = (if 6 \<le> ?run \<and> ?run \<le> 64 \<and> html_ext (drop ?run rest)
                then Some [?run, 1, 1, 1, 1, 1, 0] else None)"
  proof (cases "6 \<le> ?run \<and> ?run \<le> 64")
    case True
    then have m: "min 64 ?run = ?run" by simp
    have reps: "repetitions is_hex_ci 6 (Some 64) Greedy rest = ?run # rev [6 ..< ?run]"
      using True by (simp add: repetitions_def Let_def m)
    have "first_some (map ?f (rev [6 ..< ?run])) = None"
      by (rule first_some_all_None) (simp add: below)
    then show ?thesis using True by (simp add: reps match_ext)
  next
    case False
    have "first_some (map ?f (repetitions is_hex_ci 6 (Some 64) Greedy rest)) = None"
    proof (rule first_some_all_None)
      fix k assume "k \<in> set (repetitions is_hex_ci 6 (Some 64) Greedy rest)"
      then have "6 \<le> k" "k \<le> min 64 ?run" by (auto simp: repetitions_def Let_def)
      with False have "k < ?run" by auto
      then show "?f k = None" by (rule below)
    qed
    with False show ?thesis by auto
  qed
  show ?thesis
    unfolding Cons hash_pattern_split
    by (simp add: lit_def group Let_def)
qed

lemma takeWhile_hex_run:
  assumes "list_all is_hex_ci hx" "html_ext ext"
  shows "takeWhile is_hex_ci (hx @ ext) = hx"
proof -
  from assms(2) obtain t where "ext = CHR ''.'' # t"
    by (cases ext) (auto simp: html_ext_def)
  then have "\<not> is_hex_ci (hd ext)" "ext \<noteq> []" using hex_not_dot by auto
  then show ?thesis using assms(1)
    by (cases ext) (auto simp: list_all_iff)
qed

lemma match_generated:
  assumes "list_all is_hex_ci hx" "6 \<le> length hx" "length hx \<le> 64" "html_ext ext"
  shows "match_items hash_pattern (CHR ''.'' # hx @ ext) = Some [1, length hx, 1, 1, 1, 1, 1, 0]"
  using assms by (simp add: match_hash_pattern takeWhile_hex_run)

lemma takeWhile_stops: "\<not> P y \<Longrightarrow> length (takeWhile P (xs @ y # ys)) \<le> length xs"
  by (induction xs) auto

lemma no_match_before:
  assumes "html_ext ext"
  shows "match_items hash_pattern (c # b @ CHR ''.'' # hx @ ext) = None"
proof (rule ccontr)
  let ?rest = "b @ CHR ''.'' # hx @ ext"
  let ?run = "length (takeWhile is_hex_ci ?rest)"
  assume "match_items hash_pattern (c # ?rest) \<noteq> None"
  then have e: "html_ext (drop ?run ?rest)"
    by (auto simp: match_hash_pattern Let_def split: if_splits)
  then have "length (drop ?run ?rest) = 5" by (simp add: html_ext_def)
  moreover have "length ext = 5" using assms by (simp add: html_ext_def)
  ultimately have run: "?run = length b + 1 + length hx" by simp
  have "\<not> is_hex_ci (CHR ''.'')" using hex_not_dot by blast
  then have "?run \<le> length b" by (rule takeWhile_stops)
  with run show False by simp
qed

lemma search_generated:
  assumes "list_all is_hex_ci hx" "6 \<le> length hx" "length hx \<le> 64" "html_ext ext"
  shows "search hash_pattern (b @ CHR ''.'' # hx @ ext)
           = Some (length b, [1, length hx, 1, 1, 1, 1, 1, 0])"
proof (induction b)
  case Nil
  then show ?case using match_generated [OF assms] by simp
next
  case (Cons c b)
  then show ?case using no_match_before [OF assms(4), of c b hx] by simp
qed

lemma lower_hex_facts:
  assumes "is_lower_hex c"
  shows "is_hex_ci c" "ascii_lower c = c"
  using assms by (auto simp: is_lower_hex_def is_hex_ci_def ascii_lower_def is_digit_def)

lemma extract_generated:
  assumes "list_all is_lower_hex hx" "6 \<le> length hx" "length hx \<le> 64"
  shows "extractHashFromFilename (b @ ''.'' @ hx @ ''.html'') = Some hx"
proof -
  have hex: "list_all is_hex_ci hx" using assms(1) by (simp add: list_all_iff lower_hex_facts)
  have low: "map ascii_lower hx = hx"
    using assms(1) by (simp add: list_all_iff lower_hex_facts map_idI)
  have "search hash_pattern (b @ CHR ''.'' # hx @ ''.html'')
          = Some (length b, [1, length hx, 1, 1, 1, 1, 1, 0])"
    using hex assms(2,3) html_ext_literal by (rule search_generated)
  then show ?thesis by (simp add: extractHashFromFilename_def low)
qed

text \<open>
  Exactly the names whose first match of the pattern exists: some dot is followed by a
  run of 6 to 64 hex digits (either case) and then by \<^verbatim>\<open>.html\<close> (either case) at the end of
  the name. The value returned is that run, lowercased.
\<close>

lemma search_SomeD:
  "search p s = Some (i, ls) \<Longrightarrow> i \<le> length s \<and> match_items p (drop i s) = Some ls"
proof (induction p s arbitrary: i ls rule: search.induct)
  case (1 p)
  then show ?case by auto
next
  case (2 p c t)
  show ?case
  proof (cases "match_items p (c # t)")
    case None
    with "2.prems" obtain j where "search p t = Some (j, ls)" "i = Suc j" by auto
    with "2.IH" [OF None] show ?thesis by simp
  next
    case (Some ms)
    with "2.prems" show ?thesis by simp
  qed
qed

lemma take_run_is_takeWhile: "take (length (takeWhile P xs)) xs = takeWhile P xs"
  by (induction xs) auto

lemma drop_run_is_dropWhile: "drop (length (takeWhile P xs)) xs = dropWhile P xs"
  by (induction xs) auto

lemma extractHashFromFilename_Some_iff:
  "extractHashFromFilename name = Some p \<longleftrightarrow>
     (\<exists>b hx ext. name = b @ ''.'' @ hx @ ext \<and> list_all is_hex_ci hx
        \<and> 6 \<le> length hx \<and> length hx \<le> 64 \<and> html_ext ext \<and> p = map ascii_lower hx)"
proof
  assume "extractHashFromFilename name = Some p"
  then obtain i ls where s: "search hash_pattern name = Some (i, ls)"
    and p: "(case ls of dot # captured # _ \<Rightarrow>
               Some (map ascii_lower (take captured (drop (i + dot) name))) | _ \<Rightarrow> None) = Some p"
    by (auto simp: extractHashFromFilename_def split: option.splits)
  from search_SomeD [OF s] have i: "i \<le> length name"
    and m: "match_items hash_pattern (drop i name) = Some ls" by simp_all
  from m obtain rest where d: "drop i name = CHR ''.'' # rest"
    and run: "6 \<le> length (takeWhile is_hex_ci rest)" "length (takeWhile is_hex_ci rest) \<le> 64"
    and ext: "html_ext (drop (length (takeWhile is_hex_ci rest)) rest)"
    and ls: "ls = [1, length (takeWhile is_hex_ci rest), 1, 1, 1, 1, 1, 0]"
    by (auto simp: match_hash_pattern Let_def split: list.splits if_splits)
  let ?hx = "takeWhile is_hex_ci rest"
  have "name = take i name @ drop i name" by simp
  also have "drop i name = ''.'' @ ?hx @ dropWhile is_hex_ci rest" using d by simp
  finally have name: "name = take i name @ ''.'' @ ?hx @ dropWhile is_hex_ci rest" .
  have "drop (Suc i) name = rest" using d by (metis drop_Suc tl_drop list.sel(3))
  then have "p = map ascii_lower ?hx"
    using p ls by (simp add: take_run_is_takeWhile)
  moreover have "list_all is_hex_ci ?hx" by (simp add: list_all_iff) (meson set_takeWhileD)
  ultimately show "\<exists>b hx ext. name = b @ ''.'' @ hx @ ext \<and> list_all is_hex_ci hx
        \<and> 6 \<le> length hx \<and> length hx \<le> 64 \<and> html_ext ext \<and> p = map ascii_lower hx"
    using name run ext unfolding drop_run_is_dropWhile by blast
next
  assume "\<exists>b hx ext. name = b @ ''.'' @ hx @ ext \<and> list_all is_hex_ci hx
        \<and> 6 \<le> length hx \<and> length hx \<le> 64 \<and> html_ext ext \<and> p = map ascii_lower hx"
  then obtain b hx ext where name: "name = b @ CHR ''.'' # hx @ ext"
    and hx: "list_all is_hex_ci hx" "6 \<le> length hx" "length hx \<le> 64" "html_ext ext"
    and p: "p = map ascii_lower hx"
    by auto
  from search_generated [OF hx, of b]
  show "extractHashFromFilename name = Some p"
    by (simp add: extractHashFromFilename_def name p)
qed

subsection \<open>Hexadecimal digests\<close>

lemma hex_digit_lower: "n < 16 \<Longrightarrow> is_lower_hex (hex_digit n)"
proof -
  assume n: "n < 16"
  have "list_all (\<lambda>n. is_lower_hex (hex_digit n)) [0 ..< 16]" by code_simp
  with n show ?thesis by (simp add: list_all_iff)
qed

lemma byte_hex:
  "length (padStart2 (toString16 b)) = 2 \<and> list_all is_lower_hex (padStart2 (toString16 b))"
proof -
  have "unat b < 256" using unsigned_less [of b, where ?'a = nat] by simp
  then have "unat b div 16 < 16" by simp
  moreover have "is_lower_hex (CHR ''0'')" by code_simp
  ultimately show ?thesis
    by (simp add: padStart2_def toString16_def hex_digit_lower)
qed

lemma hex_string_facts:
  "length (hex_string bs) = 2 * length bs \<and> list_all is_lower_hex (hex_string bs)"
  by (induction bs) (simp_all add: hex_string_def byte_hex)

subsection \<open>Instances\<close>

lemma remove_excluded_ok:
  "list_all (\<lambda>s. selector_items (remove_first_hash s) \<noteq> None) sels
     \<Longrightarrow> \<exists>n. remove_excluded h sels html = Inr n"
  by (induction sels arbitrary: html) auto

lemma normalizeHTML_ok:
  "selectors_modelled cfg \<Longrightarrow> \<exists>n. normalizeHTML h cfg html = Inr n"
  using remove_excluded_ok [of "excludeSelectors cfg" h html]
  by (auto simp: normalizeHTML_def selectors_modelled_def)

lemma toy_sha256_host: "sha256_host toy_trust_host"
  by (simp add: sha256_host_def toy_trust_host_def)

lemma default_selectors_modelled: "selectors_modelled default_config"
  by code_simp

lemma default_selectors:
  "excludeSelectors throwing_config = excludeSelectors default_config"
  "excludeSelectors relabelling_config = excludeSelectors default_config"
  by (simp_all add: throwing_config_def relabelling_config_def)

lemma remove_excluded_hi:
  "remove_excluded h (excludeSelectors default_config) ''<p>Hi</p>'' = Inr ''<p>Hi</p>''"
  "remove_excluded h (excludeSelectors default_config) ''<p>Hi!</p>'' = Inr ''<p>Hi!</p>''"
  by code_simp+

lemma normalize_hi: "normalizeHTML h default_config ''<p>Hi</p>'' = Inr ''<p>Hi</p>''"
proof -
  have "trim (replace_all [Rep is_space 1 None Greedy] '' '' ''<p>Hi</p>'') = ''<p>Hi</p>''"
    by code_simp
  then show ?thesis by (simp add: normalizeHTML_def remove_excluded_hi)
qed

lemma normalize_hi_changed: "normalizeHTML h default_config ''<p>Hi!</p>'' = Inr ''<p>Hi!</p>''"
proof -
  have "trim (replace_all [Rep is_space 1 None Greedy] '' '' ''<p>Hi!</p>'') = ''<p>Hi!</p>''"
    by code_simp
  then show ?thesis by (simp add: normalizeHTML_def remove_excluded_hi)
qed

lemma normalize_same_selectors:
  "excludeSelectors cfg = excludeSelectors cfg' \<Longrightarrow> normalizeHTML h cfg html = normalizeHTML h cfg' html"
  by (simp add: normalizeHTML_def)

lemma hash_same_selectors:
  "excludeSelectors cfg = excludeSelectors cfg'
     \<Longrightarrow> generateContentHash h cfg html = generateContentHash h cfg' html"
  by (simp add: generateContentHash_def normalize_same_selectors [of cfg cfg'])

lemma toy_hash_hi:
  "generateContentHash toy_trust_host default_config ''<p>Hi</p>'' = Inr (concat (replicate 32 ''09''))"
proof -
  have "hex_string (replicate 32 (of_nat (length (utf8_encode ''<p>Hi</p>'')))) = concat (replicate 32 ''09'')"
    by code_simp
  then show ?thesis
    by (simp add: generateContentHash_def normalize_hi toy_trust_host_def)
qed

lemma toy_hash_hi_changed:
  "generateContentHash toy_trust_host default_config ''<p>Hi!</p>'' = Inr (concat (replicate 32 ''0a''))"
proof -
  have "hex_string (replicate 32 (of_nat (length (utf8_encode ''<p>Hi!</p>'')))) = concat (replicate 32 ''0a'')"
    by code_simp
  then show ?thesis
    by (simp add: generateContentHash_def normalize_hi_changed toy_trust_host_def)
qed

lemma failing_hash:
  "generateContentHash failing_digest_host default_config ''<p>Hi</p>''
     = Inl (JsError ''TypeError'' ''crypto.subtle is undefined'')"
  by (simp add: generateContentHash_def normalize_hi failing_digest_host_def)

lemma page_filename: "getFilename h (page name html) = Inr name"
  by (simp add: getFilename_def page_def)

lemma extract_plain: "extractHashFromFilename ''notes.html'' = None"
  by code_simp

lemma extract_addressed: "extractHashFromFilename ''app.090909.html'' = Some ''090909''"
  by code_simp

lemma take_09: "take 6 (concat (replicate 32 ''09'')) = ''090909''"
  by code_simp

lemma take_0a: "take 6 (concat (replicate 32 ''0a'')) = ''0a0a0a''"
  by code_simp

lemma starts_09:
  "startsWith (concat (replicate 32 ''09'')) ''090909''"
  "\<not> startsWith (concat (replicate 32 ''0a'')) ''090909''"
  "take (length ''090909'') (concat (replicate 32 ''0a'')) = ''0a0a0a''"
  by code_simp+

lemma take_differs: "\<not> startsWith a e \<Longrightarrow> slice_to a (int (length e)) \<noteq> e"
  by (simp add: startsWith_def slice_to_def)

lemma status_literals:
  "status (Unverified reason filename) = ''UNVERIFIED''"
  "status (Verified e a name) = ''VERIFIED''"
  "status (Tampered e t fe fa name) = ''TAMPERED''"
  by (simp_all add: Unverified_def Verified_def Tampered_def)

lemma after_calls_unchanged: "returns_unchanged h cfg r \<Longrightarrow> after_calls h cfg r = r"
  by (auto simp: returns_unchanged_def after_calls_def after_classification_def
      split: option.splits if_splits)

lemma after_calls_status:
  assumes "keeps_status cfg"
  shows "status (after_calls h cfg r) = status r \<or> status (after_calls h cfg r) = ''UNVERIFIED''"
  using assms
  by (auto simp: keeps_status_def after_calls_def after_classification_def status_literals
      split: option.splits sum.splits)

lemma classify_cases:
  assumes "getFilename h doc = Inr name"
  shows "classify h cfg doc =
          (case extractHashFromFilename name of
             None \<Rightarrow> Inr (Unverified ''No hash found in filename'' (Some name))
           | Some e \<Rightarrow>
               (case generateContentHash h cfg (outerHTML doc) of
                  Inl err \<Rightarrow> Inl err
                | Inr a \<Rightarrow>
                    if startsWith a e then Inr (Verified e a name)
                    else Inr (Tampered e (take (length e) a) e a name)))"
  using assms by (simp add: classify_def slice_to_def split: option.splits sum.splits)

lemma default_unchanged:
  "returns_unchanged toy_trust_host default_config r"
  "returns_unchanged failing_digest_host default_config r"
  by (simp_all add: returns_unchanged_def toy_trust_host_def failing_digest_host_def
      default_config_def)
lemma badge_hash_hi:
  "generateContentHash failing_badge_host default_config ''<p>Hi</p>'' = Inr (concat (replicate 32 ''09''))"
proof -
  have "hex_string (replicate 32 (of_nat (length (utf8_encode ''<p>Hi</p>'')))) = concat (replicate 32 ''09'')"
    by code_simp
  then show ?thesis
    by (simp add: generateContentHash_def normalize_hi failing_badge_host_def toy_trust_host_def)
qed

lemma default_keeps_status: "keeps_status default_config"
  by (simp add: keeps_status_def default_config_def)

lemma config_fields:
  "showBadge throwing_config" "showBadge relabelling_config"
  "onVerificationComplete throwing_config = Some (\<lambda>r. Inl (Error ''boom''))"
  "onVerificationComplete relabelling_config = Some (\<lambda>r. Inr (r \<lparr> status := ''VERIFIED'' \<rparr>))"
  "render_badge toy_trust_host r = None"
  "showBadge default_config"
  "render_badge failing_badge_host r = Some (JsError ''TypeError'' ''document.body is null'')"
  by (simp_all add: throwing_config_def relabelling_config_def default_config_def
      toy_trust_host_def failing_badge_host_def)

subsection \<open>Generating and parsing a content-addressed name\<close>

text \<open>
  C5. \<open>generateCommitFilename\<close> is a function of the base name and the content (the digest
  is a function of the host), so equal inputs give the same name. With a digest of 32
  bytes and a configured \<open>hashLength\<close> between 6 and 64, the name is the base name, a dot,
  the first \<open>hashLength\<close> characters of the hexadecimal digest of the normalised content,
  and \<^verbatim>\<open>.html\<close>; those characters are lower-case hexadecimal digits, and
  \<open>extractHashFromFilename\<close> applied to the name returns exactly them, whatever the base
  name is.
\<close>

theorem commit_filename_roundtrip:
  assumes "sha256_host h" "selectors_modelled cfg" "6 \<le> hashLength cfg" "hashLength cfg \<le> 64"
  shows "\<exists>normalized digest.
           normalizeHTML h cfg htmlContent = Inr normalized
         \<and> subtle_digest h (utf8_encode normalized) = Inr digest \<and> length digest = 32
         \<and> generateCommitFilename h cfg basename htmlContent
             = Inr (basename @ ''.'' @ take (nat (hashLength cfg)) (hex_string digest) @ ''.html'')
         \<and> length (take (nat (hashLength cfg)) (hex_string digest)) = nat (hashLength cfg)
         \<and> list_all is_lower_hex (take (nat (hashLength cfg)) (hex_string digest))
         \<and> extractHashFromFilename
              (basename @ ''.'' @ take (nat (hashLength cfg)) (hex_string digest) @ ''.html'')
             = Some (take (nat (hashLength cfg)) (hex_string digest))"
proof -
  from assms(2) obtain normalized where n: "normalizeHTML h cfg htmlContent = Inr normalized"
    using normalizeHTML_ok by blast
  from assms(1) obtain digest where d: "subtle_digest h (utf8_encode normalized) = Inr digest"
    and len: "length digest = 32"
    by (auto simp: sha256_host_def)
  let ?hex = "hex_string digest"
  let ?short = "take (nat (hashLength cfg)) ?hex"
  have hexlen: "length ?hex = 64" and hexlow: "list_all is_lower_hex ?hex"
    using hex_string_facts [of digest] len by simp_all
  have slen: "length ?short = nat (hashLength cfg)" using assms(3,4) hexlen by simp
  have slow: "list_all is_lower_hex ?short"
    using hexlow by (auto simp: list_all_iff dest: in_set_takeD)
  have name: "generateCommitFilename h cfg basename htmlContent
                = Inr (basename @ ''.'' @ ?short @ ''.html'')"
    using assms(3) by (simp add: generateCommitFilename_def generateContentHash_def n d slice_to_def)
  have "extractHashFromFilename (basename @ ''.'' @ ?short @ ''.html'') = Some ?short"
    using slow by (rule extract_generated) (use slen assms(3,4) in simp_all)
  with n d len name slen slow show ?thesis by blast
qed

theorem commit_filename_roundtrip_witness:
  "sha256_host toy_trust_host \<and> selectors_modelled default_config
   \<and> 6 \<le> hashLength default_config \<and> hashLength default_config \<le> 64
   \<and> generateCommitFilename toy_trust_host default_config ''app'' ''<p>Hi</p>''
       = Inr ''app.090909.html''
   \<and> extractHashFromFilename ''app.090909.html'' = Some ''090909''"
proof -
  have b: "6 \<le> hashLength default_config" "hashLength default_config \<le> 64"
    by (simp_all add: default_config_def)
  from commit_filename_roundtrip [OF toy_sha256_host default_selectors_modelled b,
      of "''<p>Hi</p>''" "''app''"]
  obtain normalized digest
    where n: "normalizeHTML toy_trust_host default_config ''<p>Hi</p>'' = Inr normalized"
    and d: "subtle_digest toy_trust_host (utf8_encode normalized) = Inr digest"
    and name: "generateCommitFilename toy_trust_host default_config ''app'' ''<p>Hi</p>''
             = Inr (''app'' @ ''.'' @ take (nat (hashLength default_config)) (hex_string digest) @ ''.html'')"
    and ex: "extractHashFromFilename
              (''app'' @ ''.'' @ take (nat (hashLength default_config)) (hex_string digest) @ ''.html'')
             = Some (take (nat (hashLength default_config)) (hex_string digest))"
    by blast
  from n have "normalized = ''<p>Hi</p>''" by (simp add: normalize_hi)
  with d have "hex_string digest = concat (replicate 32 ''09'')"
    using toy_hash_hi by (simp add: generateContentHash_def normalize_hi)
  then have "take (nat (hashLength default_config)) (hex_string digest) = ''090909''"
    by (simp add: default_config_def take_09)
  with name ex show ?thesis
    using toy_sha256_host default_selectors_modelled b by simp
qed

subsection \<open>Classification by verify\<close>

text \<open>
  C3, as stated: whenever the file name carries a prefix and the recomputed digest starts
  with it, \<open>verify\<close> returns VERIFIED. The badge is rendered and the completion callback is
  called inside the same \<^verbatim>\<open>try\<close> block, after the result has been stored; when one of them
  throws, the \<^verbatim>\<open>catch\<close> clause replaces the result. A page whose digest starts with the
  prefix of its name, verified with a callback that throws, comes back UNVERIFIED.
\<close>

theorem throwing_callback_counterexample:
  "getFilename toy_trust_host (page ''app.090909.html'' ''<p>Hi</p>'') = Inr ''app.090909.html''
   \<and> extractHashFromFilename ''app.090909.html'' = Some ''090909''
   \<and> generateContentHash toy_trust_host throwing_config
        (outerHTML (page ''app.090909.html'' ''<p>Hi</p>'')) = Inr (concat (replicate 32 ''09''))
   \<and> startsWith (concat (replicate 32 ''09'')) ''090909''
   \<and> verify toy_trust_host throwing_config (page ''app.090909.html'' ''<p>Hi</p>'')
       = Unverified ''Verification error: boom'' None
   \<and> status (verify toy_trust_host throwing_config (page ''app.090909.html'' ''<p>Hi</p>''))
       = ''UNVERIFIED''"
proof -
  have h: "generateContentHash toy_trust_host throwing_config ''<p>Hi</p>''
             = Inr (concat (replicate 32 ''09''))"
    using hash_same_selectors [OF default_selectors(1)] toy_hash_hi by simp
  have o: "outerHTML (page ''app.090909.html'' ''<p>Hi</p>'') = ''<p>Hi</p>''"
    by (simp add: page_def)
  have c: "classify toy_trust_host throwing_config (page ''app.090909.html'' ''<p>Hi</p>'')
             = Inr (Verified ''090909'' (concat (replicate 32 ''09'')) ''app.090909.html'')"
    by (simp add: classify_cases [OF page_filename] extract_addressed o h starts_09)
  have v: "verify toy_trust_host throwing_config (page ''app.090909.html'' ''<p>Hi</p>'')
       = Unverified ''Verification error: boom'' None"
  proof -
    have "after_calls toy_trust_host throwing_config
            (Verified ''090909'' (concat (replicate 32 ''09'')) ''app.090909.html'')
          = Unverified ''Verification error: boom'' None"
      by (simp add: after_calls_def after_classification_def throwing_config_def
          default_config_def toy_trust_host_def Error_def)
    then show ?thesis by (simp add: verify_def c)
  qed
  show ?thesis
    using page_filename extract_addressed h starts_09(1) v
    by (simp add: o status_literals)
qed

text \<open>
  C3, amended. For a file name \<open>name\<close> and a document, \<open>verify\<close> first builds a result:
  UNVERIFIED with the reason \<^verbatim>\<open>No hash found in filename\<close> when \<open>extractHashFromFilename\<close>
  finds no prefix in the name; VERIFIED when it finds the prefix \<open>e\<close> and the recomputed
  digest \<open>a\<close> starts with \<open>e\<close>; TAMPERED, carrying \<open>e\<close> and \<open>a\<close> cut to the length of \<open>e\<close>,
  which differ, when \<open>a\<close> does not start with \<open>e\<close>. What \<open>verify\<close> returns is that result
  after the two calls that follow (\<open>after_calls\<close>): the result itself when the badge
  rendering and the callback return normally and the callback leaves it unchanged; the
  object as the callback left it when the callback changed it; UNVERIFIED with the reason
  \<^verbatim>\<open>Verification error:\<close> and the message when the rendering or the callback throws. When
  the recomputation of the digest throws, \<open>verify\<close> returns UNVERIFIED with the reason
  \<^verbatim>\<open>Verification error:\<close> and the message, whatever the configuration. When the callback,
  if any, never changes the status, a result VERIFIED or TAMPERED means that the digest
  was recomputed and compared with that outcome.
\<close>

theorem verify_classification:
  assumes "getFilename h doc = Inr name"
  shows "(extractHashFromFilename name = None \<longrightarrow>
            verify h cfg doc
              = after_calls h cfg (Unverified ''No hash found in filename'' (Some name)))
       \<and> (extractHashFromFilename name = Some e
            \<and> generateContentHash h cfg (outerHTML doc) = Inr a \<and> startsWith a e \<longrightarrow>
            verify h cfg doc = after_calls h cfg (Verified e a name))
       \<and> (extractHashFromFilename name = Some e
            \<and> generateContentHash h cfg (outerHTML doc) = Inr a \<and> \<not> startsWith a e \<longrightarrow>
            verify h cfg doc = after_calls h cfg (Tampered e (take (length e) a) e a name)
            \<and> take (length e) a \<noteq> e \<and> length (take (length e) a) \<le> length e)
       \<and> (extractHashFromFilename name = Some e
            \<and> generateContentHash h cfg (outerHTML doc) = Inl err \<longrightarrow>
            verify h cfg doc = Unverified (''Verification error: '' @ err_message err) None
            \<and> status (verify h cfg doc) = ''UNVERIFIED'')
       \<and> (returns_unchanged h cfg r \<longrightarrow> after_calls h cfg r = r)
       \<and> (showBadge cfg \<and> render_badge h r = Some err \<longrightarrow>
            after_calls h cfg r = Unverified (''Verification error: '' @ err_message err) None)
       \<and> ((showBadge cfg \<longrightarrow> render_badge h r = None)
            \<and> onVerificationComplete cfg = Some callback \<and> callback r = Inl err \<longrightarrow>
            after_calls h cfg r = Unverified (''Verification error: '' @ err_message err) None)
       \<and> ((showBadge cfg \<longrightarrow> render_badge h r = None)
            \<and> onVerificationComplete cfg = Some callback \<and> callback r = Inr r' \<longrightarrow>
            after_calls h cfg r = r')
       \<and> (keeps_status cfg \<and> status (verify h cfg doc) = ''VERIFIED'' \<longrightarrow>
            (\<exists>e a. extractHashFromFilename name = Some e
                 \<and> generateContentHash h cfg (outerHTML doc) = Inr a \<and> startsWith a e))
       \<and> (keeps_status cfg \<and> status (verify h cfg doc) = ''TAMPERED'' \<longrightarrow>
            (\<exists>e a. extractHashFromFilename name = Some e
                 \<and> generateContentHash h cfg (outerHTML doc) = Inr a \<and> \<not> startsWith a e))"
proof -
  note c = classify_cases [OF assms, of cfg]
  have 1: "extractHashFromFilename name = None \<longrightarrow>
            verify h cfg doc
              = after_calls h cfg (Unverified ''No hash found in filename'' (Some name))"
    by (simp add: verify_def c)
  have 2: "extractHashFromFilename name = Some e
            \<and> generateContentHash h cfg (outerHTML doc) = Inr a \<and> startsWith a e \<longrightarrow>
            verify h cfg doc = after_calls h cfg (Verified e a name)"
    by (simp add: verify_def c)
  have 3: "extractHashFromFilename name = Some e
            \<and> generateContentHash h cfg (outerHTML doc) = Inr a \<and> \<not> startsWith a e \<longrightarrow>
            verify h cfg doc = after_calls h cfg (Tampered e (take (length e) a) e a name)
            \<and> take (length e) a \<noteq> e \<and> length (take (length e) a) \<le> length e"
    by (simp add: verify_def c startsWith_def)
  have 4: "extractHashFromFilename name = Some e
            \<and> generateContentHash h cfg (outerHTML doc) = Inl err \<longrightarrow>
            verify h cfg doc = Unverified (''Verification error: '' @ err_message err) None
            \<and> status (verify h cfg doc) = ''UNVERIFIED''"
    by (simp add: verify_def c status_literals)
  have 5: "returns_unchanged h cfg r \<longrightarrow> after_calls h cfg r = r"
    by (simp add: after_calls_unchanged)
  have 6: "showBadge cfg \<and> render_badge h r = Some err \<longrightarrow>
            after_calls h cfg r = Unverified (''Verification error: '' @ err_message err) None"
    by (simp add: after_calls_def after_classification_def)
  have 7: "(showBadge cfg \<longrightarrow> render_badge h r = None)
            \<and> onVerificationComplete cfg = Some callback \<and> callback r = Inl err \<longrightarrow>
            after_calls h cfg r = Unverified (''Verification error: '' @ err_message err) None"
    by (auto simp: after_calls_def after_classification_def)
  have 8: "(showBadge cfg \<longrightarrow> render_badge h r = None)
            \<and> onVerificationComplete cfg = Some callback \<and> callback r = Inr r' \<longrightarrow>
            after_calls h cfg r = r'"
    by (auto simp: after_calls_def after_classification_def)
  have st: "\<exists>r. classify h cfg doc = Inr r \<and> status r = s"
    if k: "keeps_status cfg" and v: "status (verify h cfg doc) = s" and s: "s \<noteq> ''UNVERIFIED''" for s
  proof (cases "classify h cfg doc")
    case (Inl err)
    with v s show ?thesis by (simp add: verify_def status_literals)
  next
    case (Inr r)
    with v have "status (after_calls h cfg r) = s" by (simp add: verify_def)
    with after_calls_status [OF k, of h r] s have "status r = s" by auto
    with Inr show ?thesis by simp
  qed
  have 9: "keeps_status cfg \<and> status (verify h cfg doc) = ''VERIFIED'' \<longrightarrow>
            (\<exists>e a. extractHashFromFilename name = Some e
                 \<and> generateContentHash h cfg (outerHTML doc) = Inr a \<and> startsWith a e)"
  proof
    assume "keeps_status cfg \<and> status (verify h cfg doc) = ''VERIFIED''"
    then obtain r where "classify h cfg doc = Inr r" "status r = ''VERIFIED''"
      using st [of "''VERIFIED''"] by auto
    then show "\<exists>e a. extractHashFromFilename name = Some e
                 \<and> generateContentHash h cfg (outerHTML doc) = Inr a \<and> startsWith a e"
      unfolding c by (auto simp: status_literals split: option.splits sum.splits if_splits)
  qed
  have 10: "keeps_status cfg \<and> status (verify h cfg doc) = ''TAMPERED'' \<longrightarrow>
            (\<exists>e a. extractHashFromFilename name = Some e
                 \<and> generateContentHash h cfg (outerHTML doc) = Inr a \<and> \<not> startsWith a e)"
  proof
    assume "keeps_status cfg \<and> status (verify h cfg doc) = ''TAMPERED''"
    then obtain r where "classify h cfg doc = Inr r" "status r = ''TAMPERED''"
      using st [of "''TAMPERED''"] by auto
    then show "\<exists>e a. extractHashFromFilename name = Some e
                 \<and> generateContentHash h cfg (outerHTML doc) = Inr a \<and> \<not> startsWith a e"
      unfolding c by (auto simp: status_literals split: option.splits sum.splits if_splits)
  qed
  from 1 2 3 4 5 6 7 8 9 10 show ?thesis by blast
qed

theorem verify_classification_witness:
  "getFilename toy_trust_host (page ''notes.html'' ''<p>Hi</p>'') = Inr ''notes.html''
   \<and> extractHashFromFilename ''notes.html'' = None
   \<and> returns_unchanged toy_trust_host default_config
         (Unverified ''No hash found in filename'' (Some ''notes.html''))
   \<and> verify toy_trust_host default_config (page ''notes.html'' ''<p>Hi</p>'')
       = Unverified ''No hash found in filename'' (Some ''notes.html'')
   \<and> extractHashFromFilename ''app.090909.html'' = Some ''090909''
   \<and> generateContentHash toy_trust_host default_config ''<p>Hi</p>''
       = Inr (concat (replicate 32 ''09''))
   \<and> startsWith (concat (replicate 32 ''09'')) ''090909''
   \<and> verify toy_trust_host default_config (page ''app.090909.html'' ''<p>Hi</p>'')
       = Verified ''090909'' (concat (replicate 32 ''09'')) ''app.090909.html''
   \<and> generateContentHash toy_trust_host default_config ''<p>Hi!</p>''
       = Inr (concat (replicate 32 ''0a''))
   \<and> \<not> startsWith (concat (replicate 32 ''0a'')) ''090909''
   \<and> verify toy_trust_host default_config (page ''app.090909.html'' ''<p>Hi!</p>'')
       = Tampered ''090909'' ''0a0a0a'' ''090909'' (concat (replicate 32 ''0a'')) ''app.090909.html''
   \<and> generateContentHash failing_digest_host default_config ''<p>Hi</p>''
       = Inl (JsError ''TypeError'' ''crypto.subtle is undefined'')
   \<and> verify failing_digest_host default_config (page ''app.090909.html'' ''<p>Hi</p>'')
       = Unverified ''Verification error: crypto.subtle is undefined'' None
   \<and> onVerificationComplete throwing_config = Some (\<lambda>r. Inl (Error ''boom''))
   \<and> verify toy_trust_host throwing_config (page ''app.090909.html'' ''<p>Hi</p>'')
       = Unverified ''Verification error: boom'' None
   \<and> onVerificationComplete relabelling_config
       = Some (\<lambda>r. Inr (r \<lparr> status := ''VERIFIED'' \<rparr>))
   \<and> verify toy_trust_host relabelling_config (page ''app.090909.html'' ''<p>Hi!</p>'')
       = (Tampered ''090909'' ''0a0a0a'' ''090909'' (concat (replicate 32 ''0a''))
            ''app.090909.html'') \<lparr> status := ''VERIFIED'' \<rparr>
   \<and> showBadge default_config
   \<and> render_badge failing_badge_host
         (Verified ''090909'' (concat (replicate 32 ''09'')) ''app.090909.html'')
       = Some (JsError ''TypeError'' ''document.body is null'')
   \<and> verify failing_badge_host default_config (page ''app.090909.html'' ''<p>Hi</p>'')
       = Unverified ''Verification error: document.body is null'' None
   \<and> keeps_status default_config"
proof -
  let ?ok = "Verified ''090909'' (concat (replicate 32 ''09'')) ''app.090909.html''"
  let ?bad = "Tampered ''090909'' (take (length ''090909'') (concat (replicate 32 ''0a'')))
                ''090909'' (concat (replicate 32 ''0a'')) ''app.090909.html''"
  have o: "\<And>n html. outerHTML (page n html) = html" by (simp add: page_def)
  have ht: "generateContentHash toy_trust_host throwing_config ''<p>Hi</p>''
             = Inr (concat (replicate 32 ''09''))"
    using hash_same_selectors [OF default_selectors(1)] toy_hash_hi by simp
  have hr: "generateContentHash toy_trust_host relabelling_config ''<p>Hi!</p>''
             = Inr (concat (replicate 32 ''0a''))"
    using hash_same_selectors [OF default_selectors(2)] toy_hash_hi_changed by simp
  note plain = verify_classification
      [OF page_filename [of toy_trust_host "''notes.html''" "''<p>Hi</p>''"],
       where cfg = default_config
         and r = "Unverified ''No hash found in filename'' (Some ''notes.html'')"]
  note ok = verify_classification
      [OF page_filename [of toy_trust_host "''app.090909.html''" "''<p>Hi</p>''"],
       where cfg = default_config and e = "''090909''" and a = "concat (replicate 32 ''09'')"
         and r = ?ok]
  note bad = verify_classification
      [OF page_filename [of toy_trust_host "''app.090909.html''" "''<p>Hi!</p>''"],
       where cfg = default_config and e = "''090909''" and a = "concat (replicate 32 ''0a'')"
         and r = ?bad]
  note err = verify_classification
      [OF page_filename [of failing_digest_host "''app.090909.html''" "''<p>Hi</p>''"],
       where cfg = default_config and e = "''090909''"
         and err = "JsError ''TypeError'' ''crypto.subtle is undefined''"]
  note thrown = verify_classification
      [OF page_filename [of toy_trust_host "''app.090909.html''" "''<p>Hi</p>''"],
       where cfg = throwing_config and e = "''090909''" and a = "concat (replicate 32 ''09'')"
         and r = ?ok and callback = "\<lambda>r. Inl (Error ''boom'')" and err = "Error ''boom''"]
  note changed = verify_classification
      [OF page_filename [of toy_trust_host "''app.090909.html''" "''<p>Hi!</p>''"],
       where cfg = relabelling_config and e = "''090909''" and a = "concat (replicate 32 ''0a'')"
         and r = ?bad and callback = "\<lambda>r. Inr (r \<lparr> status := ''VERIFIED'' \<rparr>)"
         and r' = "?bad \<lparr> status := ''VERIFIED'' \<rparr>"]
  note badge = verify_classification
      [OF page_filename [of failing_badge_host "''app.090909.html''" "''<p>Hi</p>''"],
       where cfg = default_config and e = "''090909''" and a = "concat (replicate 32 ''09'')"
         and r = ?ok and err = "JsError ''TypeError'' ''document.body is null''"]
  have 7: "verify failing_badge_host default_config (page ''app.090909.html'' ''<p>Hi</p>'')
       = Unverified (''Verification error: ''
            @ err_message (JsError ''TypeError'' ''document.body is null'')) None"
    using badge extract_addressed badge_hash_hi starts_09(1) config_fields unfolding o by simp
  have 1: "verify toy_trust_host default_config (page ''notes.html'' ''<p>Hi</p>'')
       = Unverified ''No hash found in filename'' (Some ''notes.html'')"
    using plain default_unchanged(1) extract_plain by simp
  have 2: "verify toy_trust_host default_config (page ''app.090909.html'' ''<p>Hi</p>'') = ?ok"
    using ok default_unchanged(1) extract_addressed toy_hash_hi starts_09(1) unfolding o by simp
  have 3: "verify toy_trust_host default_config (page ''app.090909.html'' ''<p>Hi!</p>'') = ?bad"
    using bad default_unchanged(1) extract_addressed toy_hash_hi_changed starts_09(2)
    unfolding o by simp
  have 4: "verify failing_digest_host default_config (page ''app.090909.html'' ''<p>Hi</p>'')
       = Unverified (''Verification error: ''
            @ err_message (JsError ''TypeError'' ''crypto.subtle is undefined'')) None"
    using err extract_addressed failing_hash unfolding o by simp
  have 5: "verify toy_trust_host throwing_config (page ''app.090909.html'' ''<p>Hi</p>'')
       = Unverified (''Verification error: '' @ err_message (Error ''boom'')) None"
    using thrown extract_addressed ht starts_09(1) config_fields unfolding o by simp
  have 6: "verify toy_trust_host relabelling_config (page ''app.090909.html'' ''<p>Hi!</p>'')
       = ?bad \<lparr> status := ''VERIFIED'' \<rparr>"
    using changed extract_addressed hr starts_09(2) config_fields unfolding o by simp
  show ?thesis
    using 1 2 3 4 5 6 7 starts_09 page_filename default_unchanged(1) extract_plain
      extract_addressed toy_hash_hi toy_hash_hi_changed failing_hash config_fields(3,4,6,7)
      default_keeps_status
    by (simp add: Error_def)
qed

end
